theory Spec2Isabelle
  imports Complex_Main "HOL-Library.Word"
begin

section \<open>Prebuffer store (the PreBuffer class)\<close>

subsection \<open>Data model\<close>

text \<open>
  An atom is what the fragmented-MP4 parser yields: a type tag, the raw header bytes and the
  raw payload bytes. Atoms are JavaScript objects, hence always truthy; a slot that may hold
  an atom or \<^verbatim>\<open>null\<close> is an \<open>atom option\<close>.
\<close>

type_synonym byte = "8 word"

record atom =
  type :: string
  header :: "byte list"
  data :: "byte list"

text \<open>One slot of \<^verbatim>\<open>prebufferFmp4\<close>: \<^verbatim>\<open>{ atom, time: now, date: moment().format() }\<close>.\<close>

record entry =
  atom :: atom
  time :: int
  date :: string

text \<open>
  Handles of the operating-system resources (the \<^verbatim>\<open>net.Server\<close> and the child process) are
  opaque identifiers. \<^verbatim>\<open>startPreBufferSessions\<close> returns the object
  \<^verbatim>\<open>{ server: fmp4OutputServer, process: cp }\<close>; its two properties are the fields
  \<open>session_server\<close> and \<open>session_process\<close> here, to keep them apart from the properties
  \<^verbatim>\<open>server\<close> and \<^verbatim>\<open>process\<close> that \<^verbatim>\<open>stop\<close> reads on the per-camera object itself.
\<close>

type_synonym handle = nat

record session =
  session_server :: handle
  session_process :: handle

text \<open>
  The per-camera object \<^verbatim>\<open>prebuffer[camera.name]\<close>. The first fifteen fields are the ones the
  object literal in \<^verbatim>\<open>start\<close> lists (\<^verbatim>\<open>time\<close> and \<^verbatim>\<open>date\<close> are \<open>cam_time\<close> and \<open>cam_date\<close>,
  the names \<open>time\<close> and \<open>date\<close> being taken by the ring entries). \<open>events\<close> is the
  \<^verbatim>\<open>EventEmitter\<close>, reduced to what the code uses of it: the sockets whose \<^verbatim>\<open>writeAtom\<close> is
  subscribed to \<^verbatim>\<open>'atom'\<close>, in subscription order. The last two fields are the properties
  \<^verbatim>\<open>process\<close> and \<^verbatim>\<open>server\<close> of the object, which \<^verbatim>\<open>stop\<close> reads; a JavaScript object
  answers \<^verbatim>\<open>undefined\<close> for a property that was never assigned, which is \<open>None\<close>.
\<close>

record cameraOptions =
  ffmpegInput :: string
  cameraName :: string
  ffmpegPath :: string
  videoDuration :: int
  cam_time :: int
  cam_date :: string
  prebufferFmp4 :: "entry list"
  events :: "nat list"
  released :: bool
  idrInterval :: int
  prevIdr :: int
  ftyp :: "atom option"
  moov :: "atom option"
  prebufferSession :: "session option"
  debug :: bool
  process :: "handle option"
  server :: "handle option"

text \<open>
  One reading of the clocks inside the ingestion loop: \<^verbatim>\<open>Date.now()\<close> and the two calls of
  \<^verbatim>\<open>moment().format()\<close>.
\<close>

record tick =
  now :: int
  date1 :: string
  date2 :: string

text \<open>What has been written to each viewer socket so far, by socket number.\<close>

type_synonym sockets = "nat \<Rightarrow> byte list"

subsection \<open>start, startPreBufferSessions and stop\<close>

record camera_config =
  name :: string
  source :: string
  debug_flag :: bool

text \<open>
  \<^verbatim>\<open>startPreBufferSessions\<close> returns the stored session when there is one, and otherwise the
  pair of the listener it created and the process it spawned (\<open>srv\<close> and \<open>cp\<close>, supplied by
  the operating system).
\<close>

definition startPreBufferSessions :: "handle \<Rightarrow> handle \<Rightarrow> cameraOptions \<Rightarrow> session" where
  "startPreBufferSessions srv cp c =
     (case prebufferSession c of
        Some s \<Rightarrow> s
      | None \<Rightarrow> \<lparr>session_server = srv, session_process = cp\<rparr>)"

text \<open>The body of the loop of \<^verbatim>\<open>start\<close> for one configured camera.\<close>

definition start_camera ::
  "string \<Rightarrow> int \<Rightarrow> int \<Rightarrow> string \<Rightarrow> handle \<Rightarrow> handle \<Rightarrow> camera_config \<Rightarrow> cameraOptions" where
  "start_camera videoProcessor duration t d srv cp camera =
     (let c = \<lparr>ffmpegInput = source camera,
               cameraName = name camera,
               ffmpegPath = videoProcessor,
               videoDuration = duration,
               cam_time = t,
               cam_date = d,
               prebufferFmp4 = [],
               events = [],
               released = False,
               idrInterval = 0,
               prevIdr = 0,
               ftyp = None,
               moov = None,
               prebufferSession = None,
               debug = debug_flag camera,
               process = None,
               server = None\<rparr>
      in c\<lparr>prebufferSession := Some (startPreBufferSessions srv cp c)\<rparr>)"

text \<open>
  \<^verbatim>\<open>start\<close>: every configured camera gets its object in the global \<^verbatim>\<open>prebuffer\<close>, keyed by
  name. Each camera comes with the clock readings and the two handles of its own session.
\<close>

fun start ::
  "string \<Rightarrow> int \<Rightarrow> (camera_config \<times> int \<times> string \<times> handle \<times> handle) list \<Rightarrow>
   (string \<rightharpoonup> cameraOptions) \<Rightarrow> (string \<rightharpoonup> cameraOptions)" where
  "start videoProcessor duration [] prebuffer = prebuffer"
| "start videoProcessor duration ((camera, t, d, srv, cp) # cameras) prebuffer =
     start videoProcessor duration cameras
       (prebuffer(name camera \<mapsto> start_camera videoProcessor duration t d srv cp camera))"

text \<open>
  \<^verbatim>\<open>stop\<close>, by what it does to the outside: the calls \<^verbatim>\<open>process.kill()\<close> and
  \<^verbatim>\<open>server.close()\<close> it issues, in order.
\<close>

datatype stop_effect = Kill handle | Close handle

definition stop :: "string \<Rightarrow> (string \<rightharpoonup> cameraOptions) \<Rightarrow> stop_effect list" where
  "stop cam prebuffer =
     (case prebuffer cam of
        None \<Rightarrow> []
      | Some c \<Rightarrow>
          (case process c of Some p \<Rightarrow> [Kill p] | None \<Rightarrow> []) @
          (case server c of Some s \<Rightarrow> [Close s] | None \<Rightarrow> []))"

subsection \<open>Ingestion\<close>

text \<open>
  \<^verbatim>\<open>writeAtom\<close> of the connection on socket \<open>sock\<close>:
  \<^verbatim>\<open>socket.write(Buffer.concat([atom.header, atom.data]))\<close>.
\<close>

definition writeAtom :: "nat \<Rightarrow> atom \<Rightarrow> sockets \<Rightarrow> sockets" where
  "writeAtom sock a ss = ss(sock := ss sock @ (header a @ data a))"

text \<open>\<^verbatim>\<open>events.emit('atom', atom)\<close>: every subscribed listener runs, in subscription order.\<close>

fun emit :: "nat list \<Rightarrow> atom \<Rightarrow> sockets \<Rightarrow> sockets" where
  "emit [] a ss = ss"
| "emit (l # ls) a ss = emit ls a (writeAtom l a ss)"

text \<open>
  The eviction loop: while the ring is not empty and its first entry is older than the
  limit, \<^verbatim>\<open>shift()\<close> drops that first entry.
\<close>

fun evict :: "int \<Rightarrow> entry list \<Rightarrow> entry list" where
  "evict limit [] = []"
| "evict limit (e # es) = (if time e < limit then evict limit es else e # es)"

text \<open>The \<^verbatim>\<open>if\<close>/\<^verbatim>\<open>else if\<close>/\<^verbatim>\<open>else\<close> that files the atom.\<close>

definition file_atom :: "atom \<Rightarrow> tick \<Rightarrow> cameraOptions \<Rightarrow> cameraOptions" where
  "file_atom a t c =
     (if ftyp c = None then c\<lparr>ftyp := Some a\<rparr>
      else if moov c = None then c\<lparr>moov := Some a\<rparr>
      else
        (let c1 = (if type a = ''mdat''
                   then (if prevIdr c \<noteq> 0 then c\<lparr>idrInterval := now t - prevIdr c\<rparr> else c)
                          \<lparr>prevIdr := now t\<rparr>
                   else c)
         in c1\<lparr>prebufferFmp4 := prebufferFmp4 c1 @ [\<lparr>atom = a, time = now t, date = date2 t\<rparr>]\<rparr>))"

text \<open>One turn of the \<^verbatim>\<open>for await\<close> loop: the atom \<open>a\<close> arrives at the clock reading \<open>t\<close>.\<close>

definition on_atom :: "atom \<times> tick \<Rightarrow> cameraOptions \<times> sockets \<Rightarrow> cameraOptions \<times> sockets" where
  "on_atom x s =
     (case x of (a, t) \<Rightarrow> case s of (c, ss) \<Rightarrow>
        (let c1 = c\<lparr>cam_time := now t, cam_date := date1 t\<rparr>;
             c2 = file_atom a t c1;
             c3 = c2\<lparr>prebufferFmp4 := evict (now t - videoDuration c2 - 100) (prebufferFmp4 c2)\<rparr>
         in (c3, emit (events c3) a ss)))"

text \<open>The loop over the atoms the parser has yielded so far.\<close>

fun ingest :: "(atom \<times> tick) list \<Rightarrow> cameraOptions \<times> sockets \<Rightarrow> cameraOptions \<times> sockets" where
  "ingest [] s = s"
| "ingest (x # xs) s = ingest xs (on_atom x s)"

subsection \<open>Live replay (getVideo)\<close>

text \<open>
  The \<^verbatim>\<open>for\<close> loop of the connection callback over the ring, with its flag \<^verbatim>\<open>needMoof\<close>:
  an entry older than the limit is passed over, so is any entry before the first
  \<^verbatim>\<open>moof\<close>; every other one is written.
\<close>

fun replay :: "nat \<Rightarrow> int \<Rightarrow> bool \<Rightarrow> entry list \<Rightarrow> sockets \<Rightarrow> sockets" where
  "replay sock limit needMoof [] ss = ss"
| "replay sock limit needMoof (p # ps) ss =
     (if time p < limit then replay sock limit needMoof ps ss
      else if needMoof \<and> type (atom p) \<noteq> ''moof'' then replay sock limit needMoof ps ss
      else replay sock limit False ps (writeAtom sock (atom p) ss))"

text \<open>
  The connection callback of \<^verbatim>\<open>getVideo\<close> for the viewer on socket \<open>sock\<close>, run at clock
  reading \<open>t\<close>: the two initialisation atoms when they are there, the ring, and the
  subscription to \<^verbatim>\<open>'atom'\<close>.
\<close>

definition getVideo :: "nat \<Rightarrow> int \<Rightarrow> int \<Rightarrow> cameraOptions \<times> sockets \<Rightarrow> cameraOptions \<times> sockets" where
  "getVideo sock t requestedPrebuffer s =
     (case s of (c, ss) \<Rightarrow>
        (let ss1 = (case ftyp c of Some a \<Rightarrow> writeAtom sock a ss | None \<Rightarrow> ss);
             ss2 = (case moov c of Some a \<Rightarrow> writeAtom sock a ss1 | None \<Rightarrow> ss1);
             ss3 = replay sock (t - requestedPrebuffer) True (prebufferFmp4 c) ss2
         in (c\<lparr>events := events c @ [sock]\<rparr>, ss3)))"

text \<open>
  What happens at one camera, in order: the parser yields an atom to the ingestion loop,
  or a viewer connects to the endpoint a call of \<^verbatim>\<open>getVideo\<close> has opened. Both run to
  their end without giving way to one another (neither awaits inside).
\<close>

datatype event = Arrives atom tick | Connects nat int int

fun step :: "event \<Rightarrow> cameraOptions \<times> sockets \<Rightarrow> cameraOptions \<times> sockets" where
  "step (Arrives a t) s = on_atom (a, t) s"
| "step (Connects sock t requestedPrebuffer) s = getVideo sock t requestedPrebuffer s"

fun run :: "event list \<Rightarrow> cameraOptions \<times> sockets \<Rightarrow> cameraOptions \<times> sockets" where
  "run [] s = s"
| "run (ev # evs) s = run evs (step ev s)"

text \<open>The atoms that arrive in a list of events, and the sockets that connect in it.\<close>

fun arriving :: "event list \<Rightarrow> atom list" where
  "arriving [] = []"
| "arriving (Arrives a t # evs) = a # arriving evs"
| "arriving (Connects sock t requestedPrebuffer # evs) = arriving evs"

fun connecting :: "event list \<Rightarrow> nat list" where
  "connecting [] = []"
| "connecting (Arrives a t # evs) = connecting evs"
| "connecting (Connects sock t requestedPrebuffer # evs) = sock # connecting evs"

text \<open>
  The stream of the specification, read from its words: each atom goes out as its header
  bytes followed by its payload bytes; first the initialisation atoms that are there,
  then the entries of the time window from the first \<^verbatim>\<open>moof\<close> on, then the live atoms.
\<close>

definition wire :: "atom \<Rightarrow> byte list" where
  "wire a = header a @ data a"

definition window_spec :: "int \<Rightarrow> int \<Rightarrow> entry list \<Rightarrow> atom list" where
  "window_spec t requestedPrebuffer ring =
     map atom (dropWhile (\<lambda>p. type (atom p) \<noteq> ''moof'')
                 (filter (\<lambda>p. t - requestedPrebuffer \<le> time p) ring))"

definition stream_spec :: "cameraOptions \<Rightarrow> int \<Rightarrow> int \<Rightarrow> atom list \<Rightarrow> byte list" where
  "stream_spec c t requestedPrebuffer live =
     (case ftyp c of None \<Rightarrow> [] | Some a \<Rightarrow> wire a) @
     (case moov c of None \<Rightarrow> [] | Some a \<Rightarrow> wire a) @
     concat (map wire (window_spec t requestedPrebuffer (prebufferFmp4 c))) @
     concat (map wire live)"

section \<open>Motion handler (the MotionHandler class)\<close>

subsection \<open>Values of the JavaScript side\<close>

text \<open>
  A thrown value, by its \<^verbatim>\<open>message\<close>. An awaited call of a collaborator either returns or
  throws: \<open>exn + 'a\<close>, with \<open>Inl\<close> the exception.
\<close>

datatype exn = Exn string

text \<open>
  A point in time as the \<^verbatim>\<open>moment\<close> library sees it. \<^verbatim>\<open>isSame(other, 'month')\<close> holds when
  both lie in the same month of the same year.
\<close>

record stamp =
  year :: nat
  month :: nat
  day :: nat
  hour :: nat
  minute :: nat
  second :: nat

definition isSame_month :: "stamp \<Rightarrow> stamp \<Rightarrow> bool" where
  "isSame_month a b = (year a = year b \<and> month a = month b)"

text \<open>
  The value configured as \<^verbatim>\<open>Camera.settings.rekognition.labels\<close>: an array of strings, or one
  of the values that stand for "nothing configured". \<^verbatim>\<open>undefined\<close> and \<^verbatim>\<open>null\<close> have no
  properties (calling \<^verbatim>\<open>toString\<close> on them throws a TypeError); the empty string is falsy
  and has them.
\<close>

datatype js_labels = Undefined | Null | EmptyString | Array "string list"

fun join_comma :: "string list \<Rightarrow> string" where
  "join_comma [] = []"
| "join_comma [x] = x"
| "join_comma (x # y # ys) = x @ '','' @ join_comma (y # ys)"

text \<open>What a template literal makes of the value.\<close>

fun labels_string :: "js_labels \<Rightarrow> string" where
  "labels_string Undefined = ''undefined''"
| "labels_string Null = ''null''"
| "labels_string EmptyString = []"
| "labels_string (Array xs) = join_comma xs"

text \<open>\<^verbatim>\<open>labels.toString()\<close>, which throws on \<^verbatim>\<open>undefined\<close> and \<^verbatim>\<open>null\<close>.\<close>

fun labels_toString :: "js_labels \<Rightarrow> exn + string" where
  "labels_toString Undefined = Inl (Exn ''Cannot read properties of undefined (reading 'toString')'')"
| "labels_toString Null = Inl (Exn ''Cannot read properties of null (reading 'toString')'')"
| "labels_toString l = Inr (labels_string l)"

text \<open>\<^verbatim>\<open>(labels || ['human', 'face', 'person'])\<close>: an array is truthy, also the empty one.\<close>

fun labels_or_default :: "js_labels \<Rightarrow> string list" where
  "labels_or_default (Array xs) = xs"
| "labels_or_default l = [''human'', ''face'', ''person'']"

text \<open>\<^verbatim>\<open>confidence || 80\<close>: \<^verbatim>\<open>undefined\<close> and \<^verbatim>\<open>0\<close> are falsy.\<close>

definition confidence_or_default :: "real option \<Rightarrow> real" where
  "confidence_or_default c = (case c of None \<Rightarrow> 80 | Some v \<Rightarrow> if v = 0 then 80 else v)"

text \<open>One element of \<^verbatim>\<open>imageLabels.Labels\<close> as the detection service returns it.\<close>

record label =
  Name :: string
  Confidence :: real

text \<open>
  What \<^verbatim>\<open>motionInfo.label\<close> can hold: the name \<^verbatim>\<open>handleImageDetection\<close> returned, the
  \<^verbatim>\<open>false\<close> it returned, or the \<^verbatim>\<open>null\<close> of a handling without detection.
\<close>

datatype detection = Detected string | NotDetected | NoDetection

subsection \<open>Settings, cameras and the world\<close>

text \<open>
  The section \<^verbatim>\<open>aws\<close> of the settings; \<^verbatim>\<open>awsSettings\<close> in \<^verbatim>\<open>handle\<close> is a copy of it with
  \<^verbatim>\<open>contingent_left\<close> recomputed. A string that is empty is falsy. \<open>last_rekognition\<close> is
  \<open>None\<close> when the stored value is falsy (never set, or empty).
\<close>

record aws =
  aws_active :: bool
  accessKeyId :: string
  secretAccessKey :: string
  region :: string
  contingent_total :: int
  contingent_left :: int
  last_rekognition :: "stamp option"

record recordings =
  rec_active :: bool
  rec_path :: string
  rec_timer :: int
  rec_type :: string

record settings =
  atHome :: bool
  exclude :: "string list"
  aws :: aws
  recordings :: recordings

record rekognition =
  rek_active :: bool
  rek_labels :: js_labels
  rek_confidence :: "real option"

record camera =
  videoConfig :: string
  rekognition :: rekognition

text \<open>
  What \<^verbatim>\<open>handle\<close> does to the outside, one event per call it makes, in the order of the
  calls. The three senders (\<^verbatim>\<open>sendWebhook\<close>, \<^verbatim>\<open>sendTelegram\<close> with its two flags
  \<^verbatim>\<open>sendBuffer\<close> and \<^verbatim>\<open>sendVideo\<close>, \<^verbatim>\<open>sendWebpush\<close>) wrap their whole body in
  \<^verbatim>\<open>try\<close>/\<^verbatim>\<open>catch\<close> and so always return to \<^verbatim>\<open>handle\<close>; each is one event here.
\<close>

datatype effect =
    RequestSession string
  | CloseSession string
  | RequestSnapshot string
  | DetectLabels
  | PatchAWS int stamp
  | CreateNotification string
  | SendWebhook string
  | SendTelegram string bool bool
  | CreateRecording string
  | SendWebpush string

text \<open>
  The state the handler shares between calls: the module-level object \<^verbatim>\<open>movementHandler\<close>
  (a missing key reads \<^verbatim>\<open>undefined\<close>), the session gate, the stored settings, and the
  events so far.
\<close>

record world =
  movementHandler :: "string \<rightharpoonup> bool"
  activeSessions :: "string \<Rightarrow> nat"
  maxSessions :: "string \<Rightarrow> nat"
  settingsDB :: settings
  trace :: "effect list"

text \<open>
  How the collaborators answer during one call of \<^verbatim>\<open>handle\<close>: \<^verbatim>\<open>CamerasModel.findByName\<close>
  (a falsy answer is \<open>None\<close>), whether \<^verbatim>\<open>SettingsModel.show\<close> throws, \<^verbatim>\<open>new Date()\<close> at the
  month comparison, \<^verbatim>\<open>nanoid\<close> in \<^verbatim>\<open>getMotionInfo\<close>, \<^verbatim>\<open>CamerasModel.requestSnapshot\<close>,
  \<^verbatim>\<open>rekognition.detectLabels\<close> (an element of \<^verbatim>\<open>Labels\<close> may be \<^verbatim>\<open>null\<close>), whether
  \<^verbatim>\<open>SettingsModel.patchByTarget\<close> throws, \<^verbatim>\<open>moment()\<close> at the patch, and the two
  persistence calls. The last field is \<^verbatim>\<open>String.prototype.toLowerCase\<close> of the JavaScript
  runtime, which folds the letters of all of Unicode: the handler is modelled for whatever
  that function is, and nothing about it is fixed here.
\<close>

record env =
  findByName :: "exn + camera option"
  settings_show :: "exn option"
  today :: stamp
  nanoid :: "exn + string"
  requestSnapshot :: "exn + byte list"
  detectLabels :: "byte list \<Rightarrow> exn + label option list"
  patchByTarget :: "exn option"
  moment_now :: stamp
  createNotification :: "exn option"
  createRecording :: "exn option"
  toLowerCase :: "string \<Rightarrow> string"

text \<open>
  Modelled from the spec: the session gate \<^verbatim>\<open>sessions.service\<close>, whose code is not part of
  the sources at hand. \<^verbatim>\<open>requestSession\<close> grants a session if the camera's concurrent count
  is below its configured maximum, else denies; \<^verbatim>\<open>closeSession\<close> releases one session and
  is safe to call when none was granted (floor at zero).
\<close>

definition requestSession :: "string \<Rightarrow> world \<Rightarrow> bool \<times> world" where
  "requestSession cam w =
     (let w1 = w\<lparr>trace := trace w @ [RequestSession cam]\<rparr>
      in if activeSessions w cam < maxSessions w cam
         then (True, w1\<lparr>activeSessions := (activeSessions w)(cam := Suc (activeSessions w cam))\<rparr>)
         else (False, w1))"

definition closeSession :: "string \<Rightarrow> world \<Rightarrow> world" where
  "closeSession cam w =
     w\<lparr>activeSessions := (activeSessions w)(cam := activeSessions w cam - 1),
       trace := trace w @ [CloseSession cam]\<rparr>"

text \<open>
  Modelled from the spec: \<^verbatim>\<open>SettingsModel.patchByTarget('aws', awsInfo)\<close>, not part of the
  sources at hand, merges the fields of \<^verbatim>\<open>awsInfo\<close> into the section \<^verbatim>\<open>aws\<close>.
\<close>

definition patch_aws :: "int \<Rightarrow> stamp \<Rightarrow> settings \<Rightarrow> settings" where
  "patch_aws left ts db = db\<lparr>aws := (aws db)\<lparr>contingent_left := left, last_rekognition := Some ts\<rparr>\<rparr>"

subsection \<open>handleAWS and handleImageDetection\<close>

text \<open>
  \<^verbatim>\<open>handleAWS\<close> awaits the patch: the call is an event whether it succeeds or throws, and the
  stored settings change when it succeeds.
\<close>

definition handleAWS :: "env \<Rightarrow> int \<Rightarrow> stamp \<Rightarrow> world \<Rightarrow> (exn + unit) \<times> world" where
  "handleAWS e left ts w =
     (let w1 = w\<lparr>trace := trace w @ [PatchAWS left ts]\<rparr>
      in case patchByTarget e of
           Some x \<Rightarrow> (Inl x, w1)
         | None \<Rightarrow> (Inr (), w1\<lparr>settingsDB := patch_aws left ts (settingsDB w1)\<rparr>))"

text \<open>
  The predicate of the \<^verbatim>\<open>filter\<close> over \<^verbatim>\<open>imageLabels.Labels\<close>, with the runtime's
  \<^verbatim>\<open>toLowerCase\<close> as \<open>lower\<close>.
\<close>

definition label_matches :: "(string \<Rightarrow> string) \<Rightarrow> string list \<Rightarrow> real \<Rightarrow> label option \<Rightarrow> bool" where
  "label_matches lower labels confidence l =
     (case l of
        None \<Rightarrow> False
      | Some l \<Rightarrow> lower (Name l) \<in> set labels \<and> confidence \<le> Confidence l)"

text \<open>
  The body of the \<^verbatim>\<open>try\<close> of \<^verbatim>\<open>handleImageDetection\<close>. \<open>Inl\<close> is an exception on its way to
  the \<^verbatim>\<open>catch\<close>. Without credentials \<^verbatim>\<open>detected\<close> stays \<^verbatim>\<open>undefined\<close>, and reading its
  \<^verbatim>\<open>length\<close> in the \<^verbatim>\<open>return\<close> throws.
\<close>

definition handleImageDetection_try ::
  "env \<Rightarrow> aws \<Rightarrow> js_labels \<Rightarrow> real option \<Rightarrow> byte list \<Rightarrow> world \<Rightarrow> (exn + detection) \<times> world" where
  "handleImageDetection_try e a labels confidence imgBuffer w =
     (case labels_toString labels of
        Inl x \<Rightarrow> (Inl x, w)
      | Inr logged \<Rightarrow>
          if accessKeyId a \<noteq> [] \<and> secretAccessKey a \<noteq> [] \<and> region a \<noteq> [] then
            (let labels1 = map (toLowerCase e) (labels_or_default labels);
                 confidence1 = confidence_or_default confidence;
                 w1 = w\<lparr>trace := trace w @ [DetectLabels]\<rparr>
             in case detectLabels e imgBuffer of
                  Inl x \<Rightarrow> (Inl x, w1)
                | Inr imageLabels \<Rightarrow>
                    (let detected = map (\<lambda>l. case l of Some l1 \<Rightarrow> Name l1 | None \<Rightarrow> [])
                                      (filter (label_matches (toLowerCase e) labels1 confidence1)
                                         imageLabels)
                     in case handleAWS e (contingent_left a - 1) (moment_now e) w1 of
                          (Inl x, w2) \<Rightarrow> (Inl x, w2)
                        | (Inr u, w2) \<Rightarrow>
                            (Inr (case detected of [] \<Rightarrow> NotDetected | d # ds \<Rightarrow> Detected d), w2)))
          else (Inl (Exn ''Cannot read properties of undefined (reading 'length')''), w))"

text \<open>\<^verbatim>\<open>handleImageDetection\<close>: the \<^verbatim>\<open>catch\<close> logs and returns \<^verbatim>\<open>false\<close>.\<close>

definition handleImageDetection ::
  "env \<Rightarrow> aws \<Rightarrow> js_labels \<Rightarrow> real option \<Rightarrow> byte list \<Rightarrow> world \<Rightarrow> detection \<times> world" where
  "handleImageDetection e a labels confidence imgBuffer w =
     (case handleImageDetection_try e a labels confidence imgBuffer w of
        (Inl x, w1) \<Rightarrow> (NotDetected, w1)
      | (Inr d, w1) \<Rightarrow> (d, w1))"

subsection \<open>handle\<close>

text \<open>What \<^verbatim>\<open>handle\<close> returns: \<^verbatim>\<open>{ error: errorState, message: errorMessage }\<close>.\<close>

record result =
  error :: bool
  message :: string

text \<open>
  The object \<^verbatim>\<open>awsSettings\<close>: the stored section with the quota that is left recomputed by
  the nested conditional on \<^verbatim>\<open>last_rekognition\<close>.
\<close>

definition awsSettings :: "settings \<Rightarrow> stamp \<Rightarrow> aws" where
  "awsSettings SettingsDB current =
     (aws SettingsDB)
       \<lparr>contingent_left :=
          (case last_rekognition (aws SettingsDB) of
             Some stored \<Rightarrow>
               (if isSame_month stored current
                then (if contingent_left (aws SettingsDB) \<ge> 0
                      then contingent_left (aws SettingsDB)
                      else contingent_total (aws SettingsDB))
                else contingent_total (aws SettingsDB))
           | None \<Rightarrow> contingent_total (aws SettingsDB))\<rparr>"

text \<open>
  The test \<^verbatim>\<open>motionInfo.label || motionInfo.label === null\<close>: a non-empty name is truthy,
  \<^verbatim>\<open>false\<close> is not, \<^verbatim>\<open>null\<close> passes by the second disjunct.
\<close>

fun label_passes :: "detection \<Rightarrow> bool" where
  "label_passes (Detected d) = (d \<noteq> [])"
| "label_passes NotDetected = False"
| "label_passes NoDetection = True"

text \<open>Appending the calls \<open>es\<close> to the events.\<close>

definition calls :: "effect list \<Rightarrow> world \<Rightarrow> world" where
  "calls es w = w\<lparr>trace := trace w @ es\<rparr>"

definition dquote :: char where
  "dquote = CHR 0x22"

text \<open>
  The branch of a handling that records: notification, webhook, chat message with the
  image, recording, chat message with the video, the outcome, push message.
  \<^verbatim>\<open>handleNotification\<close> and \<^verbatim>\<open>handleRecording\<close> may throw.
\<close>

definition notify_and_record :: "env \<Rightarrow> string \<Rightarrow> string \<Rightarrow> world \<Rightarrow> (exn + result) \<times> world" where
  "notify_and_record e cam recordingType w =
     (let w1 = calls [CreateNotification cam] w
      in case createNotification e of
           Some x \<Rightarrow> (Inl x, w1)
         | None \<Rightarrow>
             (let w2 = calls [SendWebhook cam, SendTelegram cam True False, CreateRecording cam] w1
              in case createRecording e of
                   Some x \<Rightarrow> (Inl x, w2)
                 | None \<Rightarrow>
                     (let w3 = calls [SendTelegram cam False True] w2;
                          r = (if recordingType = ''Video''
                               then \<lparr>error = False, message = ''Notification send and video stored.''\<rparr>
                               else \<lparr>error = False, message = ''Notification send and snapshot stored.''\<rparr>)
                      in (Inr r, calls [SendWebpush cam] w3))))"

text \<open>The branch of a handling with recording switched off.\<close>

definition notify_only :: "env \<Rightarrow> string \<Rightarrow> world \<Rightarrow> (exn + result) \<times> world" where
  "notify_only e cam w =
     (let w1 = calls [CreateNotification cam] w
      in case createNotification e of
           Some x \<Rightarrow> (Inl x, w1)
         | None \<Rightarrow>
             (Inr \<lparr>error = False, message = ''Notification sent.''\<rparr>,
              calls [SendWebhook cam, SendTelegram cam False False, SendWebpush cam] w1))"

text \<open>
  The body of the outer \<^verbatim>\<open>try\<close> of \<^verbatim>\<open>handle\<close>. \<open>Inl\<close> is an exception on its way to the
  outer \<^verbatim>\<open>catch\<close>; the world is the one at the moment of the throw. The inner
  \<^verbatim>\<open>try\<close>/\<^verbatim>\<open>catch\<close> around \<^verbatim>\<open>findByName\<close> leaves \<^verbatim>\<open>Camera\<close> undefined when the lookup throws.
\<close>

definition handle_try :: "env \<Rightarrow> string \<Rightarrow> string \<Rightarrow> world \<Rightarrow> (exn + result) \<times> world" where
  "handle_try e trigger cam w =
     (case (case findByName e of Inl x \<Rightarrow> None | Inr found \<Rightarrow> found) of
        None \<Rightarrow>
          (Inr \<lparr>error = True, message = ''Camera '' @ [dquote] @ cam @ [dquote] @ '' not found.''\<rparr>, w)
      | Some Camera \<Rightarrow>
          (case settings_show e of
             Some x \<Rightarrow> (Inl x, w)
           | None \<Rightarrow>
               (let SettingsDB = settingsDB w;
                    awsS = awsSettings SettingsDB (today e);
                    recordingSettings = recordings SettingsDB
                in if \<not> atHome SettingsDB \<or> (atHome SettingsDB \<and> cam \<in> set (exclude SettingsDB)) then
                     if movementHandler w cam \<noteq> Some True then
                       (let w1 = w\<lparr>movementHandler := (movementHandler w)(cam \<mapsto> True)\<rparr>
                        in case nanoid e of
                             Inl x \<Rightarrow> (Inl x, w1)
                           | Inr motionId \<Rightarrow>
                               if rec_active recordingSettings then
                                 (case requestSession cam w1 of
                                    (allowStream, w2) \<Rightarrow>
                                      if allowStream then
                                        (let w3 = calls [RequestSnapshot cam] w2
                                         in case requestSnapshot e of
                                              Inl x \<Rightarrow> (Inl x, w3)
                                            | Inr imgBuffer \<Rightarrow>
                                                (case (if aws_active awsS \<and>
                                                          contingent_total awsS > 0 \<and>
                                                          contingent_left awsS > 0 \<and>
                                                          rek_active (rekognition Camera)
                                                       then handleImageDetection e awsS
                                                              (rek_labels (rekognition Camera))
                                                              (rek_confidence (rekognition Camera))
                                                              imgBuffer w3
                                                       else (NoDetection, w3)) of
                                                   (label, w4) \<Rightarrow>
                                                     if label_passes label then
                                                       notify_and_record e cam
                                                         (rec_type recordingSettings) w4
                                                     else
                                                       (Inr \<lparr>error = True,
                                                             message =
                                                               ''Skip handling movement. Configured label ('' @
                                                               labels_string (rek_labels (rekognition Camera)) @
                                                               '') not detected.''\<rparr>, w4)))
                                      else (Inr \<lparr>error = False, message = ''Max sessions exceeded.''\<rparr>, w2))
                               else notify_only e cam w1)
                     else
                       (Inr \<lparr>error = True,
                             message = ''Can not handle movement, another movement currently in progress for this camera.''\<rparr>,
                        w)
                   else
                     (Inr \<lparr>error = True,
                           message = ''Skip motion trigger. At Home is active and '' @ cam @
                                     '' is not excluded!''\<rparr>,
                      w))))"

text \<open>
  \<^verbatim>\<open>handle\<close>: the outer \<^verbatim>\<open>catch\<close> turns an exception into an outcome with its message; then
  come the two statements after the \<^verbatim>\<open>try\<close>, \<^verbatim>\<open>movementHandler[cameraName] = false\<close> and
  \<^verbatim>\<open>sessions.closeSession(cameraName)\<close>, and the \<^verbatim>\<open>return\<close>.
\<close>

definition handle :: "env \<Rightarrow> string \<Rightarrow> string \<Rightarrow> bool \<Rightarrow> world \<Rightarrow> result \<times> world" where
  "handle e trigger cam active w =
     (case handle_try e trigger cam w of
        (r, w1) \<Rightarrow>
          (let res = (case r of
                        Inl x \<Rightarrow> (case x of Exn m \<Rightarrow> \<lparr>error = True, message = m\<rparr>)
                      | Inr res \<Rightarrow> res);
               w2 = w1\<lparr>movementHandler := (movementHandler w1)(cam \<mapsto> False)\<rparr>
           in (res, closeSession cam w2)))"

section \<open>The specification's formulations and the invariants\<close>

text \<open>
  The detection gate in the words of the specification, written out on its own: the
  configured target labels, lower-cased, with \<open>human\<close>, \<open>face\<close>, \<open>person\<close> in their place
  when none are configured; the threshold, 80 when it is unset or 0; of the labels the service
  returned, those whose lower-cased name is among the targets and whose confidence
  reaches the threshold; the answer is the name of the first of them as it was returned,
  or \<^verbatim>\<open>false\<close>.
\<close>

definition gate_spec ::
  "(string \<Rightarrow> string) \<Rightarrow> js_labels \<Rightarrow> real option \<Rightarrow> label list \<Rightarrow> detection" where
  "gate_spec lower labels confidence returned =
     (let targets = map lower (case labels of
                                 Array xs \<Rightarrow> xs
                               | Undefined \<Rightarrow> [''human'', ''face'', ''person'']
                               | Null \<Rightarrow> [''human'', ''face'', ''person'']
                               | EmptyString \<Rightarrow> [''human'', ''face'', ''person'']);
          threshold = (case confidence of
                         None \<Rightarrow> 80
                       | Some v \<Rightarrow> if v = 0 then 80 else v)
      in case filter (\<lambda>l. lower (Name l) \<in> set targets \<and> threshold \<le> Confidence l) returned of
           [] \<Rightarrow> NotDetected
         | l # ls \<Rightarrow> Detected (Name l))"

text \<open>
  The labels the detection service returned to a call of \<^verbatim>\<open>handleImageDetection\<close>: the
  elements of its answer that are not \<^verbatim>\<open>null\<close>; none when the service is not called (a
  credential is missing) and none when its call throws.
\<close>

definition returned_labels :: "env \<Rightarrow> aws \<Rightarrow> byte list \<Rightarrow> label list" where
  "returned_labels e a imgBuffer =
     (if accessKeyId a \<noteq> [] \<and> secretAccessKey a \<noteq> [] \<and> region a \<noteq> [] then
        (case detectLabels e imgBuffer of
           Inl x \<Rightarrow> []
         | Inr imageLabels \<Rightarrow>
             concat (map (\<lambda>l. case l of None \<Rightarrow> [] | Some l1 \<Rightarrow> [l1]) imageLabels))
      else [])"

text \<open>
  The ring is in order of time and holds nothing newer than the clock reading \<open>t\<close>.
\<close>

definition ring_ok :: "int \<Rightarrow> cameraOptions \<Rightarrow> bool" where
  "ring_ok t c =
     (sorted (map time (prebufferFmp4 c)) \<and> list_all (\<lambda>e. time e \<le> t) (prebufferFmp4 c))"

text \<open>A ring with an entry belongs to a camera whose two initialisation atoms are set.\<close>

definition init_ok :: "cameraOptions \<Rightarrow> bool" where
  "init_ok c = (prebufferFmp4 c = [] \<or> (ftyp c \<noteq> None \<and> moov c \<noteq> None))"

section \<open>Example data\<close>

definition ftyp_atom :: atom where
  "ftyp_atom = \<lparr>type = ''ftyp'', header = [0, 9, 102], data = [1]\<rparr>"

definition moov_atom :: atom where
  "moov_atom = \<lparr>type = ''moov'', header = [0, 9, 109], data = [2]\<rparr>"

definition moof_atom :: atom where
  "moof_atom = \<lparr>type = ''moof'', header = [0, 9, 111], data = [3]\<rparr>"

definition mdat_atom :: atom where
  "mdat_atom = \<lparr>type = ''mdat'', header = [0, 9, 100], data = [4, 5]\<rparr>"

definition at_ms :: "int \<Rightarrow> tick" where
  "at_ms n = \<lparr>now = n, date1 = ''d'', date2 = ''d''\<rparr>"

definition arrivals :: "(atom \<times> tick) list" where
  "arrivals = [(ftyp_atom, at_ms 0), (moov_atom, at_ms 10), (mdat_atom, at_ms 900),
               (moof_atom, at_ms 1000), (mdat_atom, at_ms 1010)]"

text \<open>Arrivals during which the clock is set back by five seconds.\<close>

definition stepped_back :: "(atom \<times> tick) list" where
  "stepped_back = [(ftyp_atom, at_ms 0), (moov_atom, at_ms 10), (moof_atom, at_ms 10000),
                   (mdat_atom, at_ms 5000), (moof_atom, at_ms 10000)]"

text \<open>
  A camera with a first viewer on socket 1, who connected after the initialisation atoms,
  and what happens after a second viewer has connected: an atom arrives, a third viewer
  connects on socket 5, another atom arrives.
\<close>

definition before_viewer :: "event list" where
  "before_viewer = [Arrives ftyp_atom (at_ms 0), Arrives moov_atom (at_ms 10),
                    Connects 1 20 1000, Arrives mdat_atom (at_ms 900),
                    Arrives moof_atom (at_ms 1000), Arrives mdat_atom (at_ms 1010)]"

definition after_viewer :: "event list" where
  "after_viewer = [Arrives moof_atom (at_ms 2100), Connects 5 2105 0,
                   Arrives mdat_atom (at_ms 2110)]"

definition cam_cfg :: camera_config where
  "cam_cfg = \<lparr>name = ''Front Door'', source = ''-i rtsp://front'', debug_flag = False\<rparr>"

definition fresh_camera :: cameraOptions where
  "fresh_camera = start_camera ''ffmpeg'' 3000 0 ''d'' 7 8 cam_cfg"

definition no_sockets :: sockets where
  "no_sockets = (\<lambda>sock. [])"

definition started :: "string \<rightharpoonup> cameraOptions" where
  "started = start ''ffmpeg'' 3000 [(cam_cfg, 0, ''2021-06-15T12:00:00+00:00'', 7, 8)] Map.empty"

definition june :: stamp where
  "june = \<lparr>year = 2021, month = 6, day = 15, hour = 12, minute = 0, second = 0\<rparr>"

definition may :: stamp where
  "may = \<lparr>year = 2021, month = 5, day = 31, hour = 23, minute = 59, second = 59\<rparr>"

definition front_door :: camera where
  "front_door = \<lparr>videoConfig = ''-i rtsp://front'',
                  rekognition = \<lparr>rek_active = True, rek_labels = Array [''person''],
                                  rek_confidence = Some 80\<rparr>\<rparr>"

definition aws0 :: aws where
  "aws0 = \<lparr>aws_active = True, accessKeyId = ''AKIA'', secretAccessKey = ''secret'',
            region = ''eu-west-1'', contingent_total = 5000, contingent_left = 50,
            last_rekognition = Some june\<rparr>"

definition settings0 :: settings where
  "settings0 = \<lparr>atHome = False, exclude = [], aws = aws0,
                 recordings = \<lparr>rec_active = True, rec_path = ''/var/rec'', rec_timer = 10,
                                rec_type = ''Snapshot''\<rparr>\<rparr>"

definition rollover :: settings where
  "rollover = settings0\<lparr>aws := aws0\<lparr>contingent_left := 0, last_rekognition := Some may\<rparr>\<rparr>"

text \<open>
  How \<^verbatim>\<open>toLowerCase\<close> acts on a string of ASCII characters: the letters A to Z are
  folded, every other character is kept. All strings of the examples are ASCII.
\<close>

definition ascii_lower_char :: "char \<Rightarrow> char" where
  "ascii_lower_char c =
     (let n = (of_char c :: nat) in if 65 \<le> n \<and> n \<le> 90 then char_of (n + 32) else c)"

definition ascii_lower :: "string \<Rightarrow> string" where
  "ascii_lower s = map ascii_lower_char s"

definition person_and_car :: "label option list" where
  "person_and_car = [Some \<lparr>Name = ''Person'', Confidence = 92\<rparr>,
                     Some \<lparr>Name = ''Car'', Confidence = 99\<rparr>]"

definition env0 :: env where
  "env0 = \<lparr>findByName = Inr (Some front_door), settings_show = None, today = june,
            nanoid = Inr ''0123456789'', requestSnapshot = Inr [255, 216],
            detectLabels = (\<lambda>img. Inr person_and_car), patchByTarget = None,
            moment_now = june, createNotification = None, createRecording = None,
            toLowerCase = ascii_lower\<rparr>"

definition env_only_car :: env where
  "env_only_car = env0\<lparr>detectLabels := (\<lambda>img. Inr [Some \<lparr>Name = ''Car'', Confidence = 99\<rparr>])\<rparr>"

definition env_detect_fails :: env where
  "env_detect_fails = env0\<lparr>detectLabels := (\<lambda>img. Inl (Exn ''ServiceUnavailable''))\<rparr>"

definition env_recording_fails :: env where
  "env_recording_fails = env0\<lparr>createRecording := Some (Exn ''ENOSPC'')\<rparr>"

definition env_patch_fails :: env where
  "env_patch_fails = env0\<lparr>patchByTarget := Some (Exn ''EACCES'')\<rparr>"

definition env_half_sure :: env where
  "env_half_sure = env0\<lparr>detectLabels := (\<lambda>img. Inr [Some \<lparr>Name = ''Person'', Confidence = 50\<rparr>])\<rparr>"

definition human_and_face :: "label option list" where
  "human_and_face = [Some \<lparr>Name = ''Human'', Confidence = 79\<rparr>, None,
                     Some \<lparr>Name = ''Face'', Confidence = 80\<rparr>]"

definition env_faces :: env where
  "env_faces = env0\<lparr>detectLabels := (\<lambda>img. Inr human_and_face)\<rparr>"

definition env_lookup_fails :: env where
  "env_lookup_fails = env0\<lparr>findByName := Inl (Exn ''database is locked'')\<rparr>"

definition world0 :: world where
  "world0 = \<lparr>movementHandler = Map.empty, activeSessions = (\<lambda>cam. 0),
              maxSessions = (\<lambda>cam. 2), settingsDB = settings0, trace = []\<rparr>"

text \<open>
  The world while a first handling for the camera ``Front Door'' waits for its snapshot:
  it has set the flag (\<^verbatim>\<open>movementHandler[cameraName] = true\<close>) and has been granted its
  session (\<^verbatim>\<open>sessions.requestSession(cameraName)\<close>).
\<close>

definition busy_world :: world where
  "busy_world =
     snd (requestSession ''Front Door''
            (world0\<lparr>movementHandler := (movementHandler world0)(''Front Door'' \<mapsto> True)\<rparr>))"

definition no_region :: world where
  "no_region = world0\<lparr>settingsDB := settings0\<lparr>aws := aws0\<lparr>region := []\<rparr>\<rparr>\<rparr>"

section \<open>Properties of the prebuffer store\<close>

subsection \<open>The ring after an append\<close>

lemma evict_sorted_filter:
  "sorted (map time es) \<Longrightarrow> evict limit es = filter (\<lambda>e. limit \<le> time e) es"
proof (induction es)
  case Nil
  then show ?case by simp
next
  case (Cons e es)
  show ?case
  proof (cases "time e < limit")
    case True
    with Cons show ?thesis by simp
  next
    case False
    from Cons.prems have "\<forall>x \<in> set es. time e \<le> time x" by simp
    with False have "\<forall>x \<in> set es. limit \<le> time x" by auto
    then have "filter (\<lambda>e. limit \<le> time e) es = es" by (simp add: filter_id_conv)
    with False show ?thesis by simp
  qed
qed

lemma evict_subset: "set (evict limit es) \<subseteq> set es"
  by (induction es) auto

lemma sorted_evict: "sorted (map time es) \<Longrightarrow> sorted (map time (evict limit es))"
  by (induction es) auto

lemma file_atom_ring_ok:
  "ring_ok t0 c \<Longrightarrow> t0 \<le> now t \<Longrightarrow> ring_ok (now t) (file_atom a t c)"
  by (auto simp: ring_ok_def file_atom_def Let_def sorted_append list_all_iff)

lemma file_atom_videoDuration: "videoDuration (file_atom a t c) = videoDuration c"
  by (simp add: file_atom_def Let_def)

lemma on_atom_ring_ok:
  assumes "ring_ok t0 c" and "t0 \<le> now t"
  shows "ring_ok (now t) (fst (on_atom (a, t) (c, ss)))"
proof -
  have "ring_ok t0 (c\<lparr>cam_time := now t, cam_date := date1 t\<rparr>)"
    using assms(1) by (simp add: ring_ok_def)
  then have "ring_ok (now t) (file_atom a t (c\<lparr>cam_time := now t, cam_date := date1 t\<rparr>))"
    using assms(2) by (rule file_atom_ring_ok)
  then show ?thesis
    using evict_subset
    by (auto simp: on_atom_def Let_def ring_ok_def sorted_evict list_all_iff)
qed

lemma on_atom_videoDuration: "videoDuration (fst (on_atom x s)) = videoDuration (fst s)"
  by (cases x; cases s) (simp add: on_atom_def Let_def file_atom_videoDuration)

lemma ingest_videoDuration: "videoDuration (fst (ingest xs s)) = videoDuration (fst s)"
  by (induction xs arbitrary: s) (simp_all add: on_atom_videoDuration)

lemma ingest_append: "ingest (xs @ ys) s = ingest ys (ingest xs s)"
  by (induction xs arbitrary: s) simp_all

lemma ingest_ring_ok:
  "ring_ok t0 (fst s) \<Longrightarrow> sorted (t0 # map (\<lambda>x. now (snd x)) xs) \<Longrightarrow>
   ring_ok (last (t0 # map (\<lambda>x. now (snd x)) xs)) (fst (ingest xs s))"
proof (induction xs arbitrary: s t0)
  case Nil
  then show ?case by simp
next
  case (Cons x xs)
  obtain a t where x: "x = (a, t)" by (cases x)
  obtain c ss where s: "s = (c, ss)" by (cases s)
  from Cons.prems have "ring_ok (now t) (fst (on_atom x s))"
    by (simp add: x s on_atom_ring_ok)
  moreover from Cons.prems have "sorted (now t # map (\<lambda>x. now (snd x)) xs)" by (simp add: x)
  ultimately have "ring_ok (last (now t # map (\<lambda>x. now (snd x)) xs)) (fst (ingest xs (on_atom x s)))"
    by (rule Cons.IH)
  then show ?case by (simp add: x)
qed

lemma start_camera_ring: "prebufferFmp4 (start_camera vp vd t0 d0 srv cp cfg) = []"
  by (simp add: start_camera_def Let_def)

lemma start_camera_videoDuration: "videoDuration (start_camera vp vd t0 d0 srv cp cfg) = vd"
  by (simp add: start_camera_def Let_def)

lemma ingest_from_start_ring_ok:
  assumes "sorted (map (\<lambda>x. now (snd x)) xs)" and "\<forall>x \<in> set xs. now (snd x) \<le> t"
  shows "ring_ok t (fst (ingest xs (start_camera vp vd t0 d0 srv cp cfg, ss)))"
proof (cases xs rule: rev_cases)
  case Nil
  then show ?thesis by (simp add: ring_ok_def start_camera_ring)
next
  case (snoc ys y)
  define m where "m = (if ys = [] then now (snd y) else now (snd (hd ys)))"
  have "ring_ok m (fst (start_camera vp vd t0 d0 srv cp cfg, ss))"
    by (simp add: ring_ok_def start_camera_ring)
  moreover have "sorted (m # map (\<lambda>x. now (snd x)) xs)"
    using assms(1) snoc by (cases ys) (auto simp: m_def)
  ultimately have "ring_ok (last (m # map (\<lambda>x. now (snd x)) xs))
      (fst (ingest xs (start_camera vp vd t0 d0 srv cp cfg, ss)))"
    by (rule ingest_ring_ok)
  moreover have "last (m # map (\<lambda>x. now (snd x)) xs) \<le> t"
    using assms(2) snoc by simp
  ultimately show ?thesis by (auto simp: ring_ok_def list_all_iff)
qed

text \<open>
  Claim C3, as the code has it. A camera is started and its ingestion loop has filed the
  atoms \<open>xs\<close>; the atom \<open>a\<close> arrives next, at the clock reading \<open>t\<close>. If the readings of
  \<^verbatim>\<open>Date.now()\<close> have not decreased along the loop, then after this turn of the loop
  every entry of the ring has \<open>time \<ge> now - videoDuration - 100\<close>, the ring is ordered by
  non-decreasing time, and the trim from the front has removed exactly the entries that
  are too old: what is left is the filter of the ring as it was before the eviction loop
  ran. Every turn of the loop is such a last turn of a run, so this is the state after
  each append.
\<close>

theorem ring_after_append:
  assumes "sorted (map (\<lambda>x. now (snd x)) (xs @ [(a, t)]))"
  shows "list_all (\<lambda>e. now t - vd - 100 \<le> time e)
           (prebufferFmp4 (fst (ingest (xs @ [(a, t)]) (start_camera vp vd t0 d0 srv cp cfg, ss))))
       \<and> sorted (map time
           (prebufferFmp4 (fst (ingest (xs @ [(a, t)]) (start_camera vp vd t0 d0 srv cp cfg, ss)))))
       \<and> prebufferFmp4 (fst (ingest (xs @ [(a, t)]) (start_camera vp vd t0 d0 srv cp cfg, ss))) =
           filter (\<lambda>e. now t - vd - 100 \<le> time e)
             (prebufferFmp4 (file_atom a t
                ((fst (ingest xs (start_camera vp vd t0 d0 srv cp cfg, ss)))
                   \<lparr>cam_time := now t, cam_date := date1 t\<rparr>)))"
proof -
  define c where "c = fst (ingest xs (start_camera vp vd t0 d0 srv cp cfg, ss))"
  define b where "b = file_atom a t (c\<lparr>cam_time := now t, cam_date := date1 t\<rparr>)"
  have vd: "videoDuration b = vd"
    by (simp add: b_def c_def file_atom_videoDuration ingest_videoDuration start_camera_videoDuration)
  from assms have s: "sorted (map (\<lambda>x. now (snd x)) xs)" and le: "\<forall>x \<in> set xs. now (snd x) \<le> now t"
    by (auto simp: sorted_append)
  have "ring_ok (now t) c"
    unfolding c_def using s le by (rule ingest_from_start_ring_ok)
  then have "ring_ok (now t) (c\<lparr>cam_time := now t, cam_date := date1 t\<rparr>)"
    by (simp add: ring_ok_def)
  then have okb: "ring_ok (now t) b"
    unfolding b_def by (rule file_atom_ring_ok) simp
  obtain c' ss' where r: "ingest xs (start_camera vp vd t0 d0 srv cp cfg, ss) = (c', ss')"
    by (cases "ingest xs (start_camera vp vd t0 d0 srv cp cfg, ss)")
  have cc: "c' = c" by (simp add: c_def r)
  have step: "fst (ingest (xs @ [(a, t)]) (start_camera vp vd t0 d0 srv cp cfg, ss)) =
      b\<lparr>prebufferFmp4 := evict (now t - vd - 100) (prebufferFmp4 b)\<rparr>"
    using vd by (simp add: ingest_append on_atom_def Let_def r cc b_def)
  have ev: "evict (now t - vd - 100) (prebufferFmp4 b) =
      filter (\<lambda>e. now t - vd - 100 \<le> time e) (prebufferFmp4 b)"
    using okb by (simp add: ring_ok_def evict_sorted_filter)
  have "sorted (map time (filter (\<lambda>e. now t - vd - 100 \<le> time e) (prebufferFmp4 b)))"
    using okb by (simp add: ring_ok_def sorted_filter)
  then show ?thesis
    unfolding step ev b_def[symmetric] c_def[symmetric]
    by (simp add: list_all_iff b_def c_def)
qed

text \<open>
  The claim at work: five atoms arrive within about a second, the sixth four seconds
  later with a window of three seconds; the three older ring entries are gone.
\<close>

theorem ring_after_append_witness:
  "sorted (map (\<lambda>x. now (snd x)) (arrivals @ [(moof_atom, at_ms 5000)]))
   \<and> prebufferFmp4 (fst (ingest (arrivals @ [(moof_atom, at_ms 5000)]) (fresh_camera, no_sockets)))
       = [\<lparr>atom = moof_atom, time = 5000, date = ''d''\<rparr>]
   \<and> list_all (\<lambda>e. now (at_ms 5000) - 3000 - 100 \<le> time e)
       (prebufferFmp4 (fst (ingest (arrivals @ [(moof_atom, at_ms 5000)])
          (fresh_camera, no_sockets))))"
proof -
  have h: "sorted (map (\<lambda>x. now (snd x)) (arrivals @ [(moof_atom, at_ms 5000)]))"
    by (simp add: arrivals_def at_ms_def)
  have v: "prebufferFmp4 (fst (ingest (arrivals @ [(moof_atom, at_ms 5000)])
      (fresh_camera, no_sockets))) = [\<lparr>atom = moof_atom, time = 5000, date = ''d''\<rparr>]"
    by code_simp
  have a: "list_all (\<lambda>e. now (at_ms 5000) - 3000 - 100 \<le> time e)
       (prebufferFmp4 (fst (ingest (arrivals @ [(moof_atom, at_ms 5000)])
          (fresh_camera, no_sockets))))"
    unfolding fresh_camera_def
    using ring_after_append[OF h, of 3000 "''ffmpeg''" 0 "''d''" 7 8 cam_cfg no_sockets]
    by (rule conjunct1)
  from h v a show ?thesis by blast
qed

text \<open>
  Claim C3 as it is worded fails when the clock is set back between two atoms: the loop
  appends in order of arrival and never sorts, and the trim stops at the first entry that
  is young enough. Here the entry of time 5000 stays behind one of time 10000 although the
  limit is 6900, and the ring is not in order of time.
\<close>

theorem ring_clock_set_back_counterexample:
  "prebufferFmp4 (fst (ingest stepped_back (fresh_camera, no_sockets))) =
     [\<lparr>atom = moof_atom, time = 10000, date = ''d''\<rparr>,
      \<lparr>atom = mdat_atom, time = 5000, date = ''d''\<rparr>,
      \<lparr>atom = moof_atom, time = 10000, date = ''d''\<rparr>]
   \<and> videoDuration (fst (ingest stepped_back (fresh_camera, no_sockets))) = 3000
   \<and> \<not> list_all (\<lambda>e. 10000 - 3000 - 100 \<le> time e)
         (prebufferFmp4 (fst (ingest stepped_back (fresh_camera, no_sockets))))
   \<and> \<not> sorted (map time (prebufferFmp4 (fst (ingest stepped_back (fresh_camera, no_sockets)))))"
  by code_simp

subsection \<open>What a viewer receives\<close>

lemma writeAtom_same: "writeAtom sock a ss sock = ss sock @ wire a"
  by (simp add: writeAtom_def wire_def)

lemma writeAtom_other: "l \<noteq> sock \<Longrightarrow> writeAtom l a ss sock = ss sock"
  by (simp add: writeAtom_def)

lemma emit_written:
  "emit ls a ss sock = ss sock @ concat (replicate (count_list ls sock) (wire a))"
proof (induction ls arbitrary: ss)
  case Nil
  then show ?case by simp
next
  case (Cons l ls)
  show ?case
  proof (cases "l = sock")
    case True
    then show ?thesis by (simp add: Cons.IH writeAtom_same)
  next
    case False
    then show ?thesis by (simp add: Cons.IH writeAtom_other)
  qed
qed

lemma file_atom_events: "events (file_atom a t c) = events c"
  by (simp add: file_atom_def Let_def)

lemma on_atom_events: "events (fst (on_atom x s)) = events (fst s)"
  by (cases x; cases s) (simp add: on_atom_def Let_def file_atom_events)

lemma on_atom_sockets: "snd (on_atom (a, t) (c, ss)) = emit (events c) a ss"
  by (simp add: on_atom_def Let_def file_atom_events)

lemma replay_other: "l \<noteq> sock \<Longrightarrow> replay l limit nm ps ss sock = ss sock"
  by (induction ps arbitrary: nm ss) (auto simp: writeAtom_other)

lemma replay_written:
  "replay sock limit nm ps ss sock =
     ss sock @ concat (map wire (map atom
       ((if nm then dropWhile (\<lambda>p. type (atom p) \<noteq> ''moof'') else id)
          (filter (\<lambda>p. limit \<le> time p) ps))))"
proof (induction ps arbitrary: nm ss)
  case Nil
  then show ?case by simp
next
  case (Cons p ps)
  show ?case
  proof (cases "time p < limit")
    case True
    then show ?thesis by (simp add: Cons.IH)
  next
    case False
    then show ?thesis by (cases nm) (simp_all add: Cons.IH writeAtom_same)
  qed
qed

lemma getVideo_events: "events (fst (getVideo sock t r (c, ss))) = events c @ [sock]"
  by (simp add: getVideo_def Let_def)

lemma getVideo_written:
  "snd (getVideo sock t r (c, ss)) sock = ss sock @ stream_spec c t r []"
  by (cases "ftyp c"; cases "moov c")
     (simp_all add: getVideo_def Let_def replay_written stream_spec_def window_spec_def
        writeAtom_same)

lemma getVideo_other:
  "k \<noteq> sock \<Longrightarrow> snd (getVideo k t r (c, ss)) sock = ss sock"
  by (cases "ftyp c"; cases "moov c")
     (simp_all add: getVideo_def Let_def replay_other writeAtom_other)

lemma stream_spec_live:
  "stream_spec c t r live = stream_spec c t r [] @ concat (map wire live)"
  by (simp add: stream_spec_def)

text \<open>
  A socket that is subscribed once receives every atom that arrives, once, whatever other
  viewers connect in between.
\<close>

lemma run_subscribed:
  "count_list (events (fst s)) sock = 1 \<Longrightarrow> sock \<notin> set (connecting later) \<Longrightarrow>
   snd (run later s) sock = snd s sock @ concat (map wire (arriving later))"
proof (induction later arbitrary: s)
  case Nil
  then show ?case by simp
next
  case (Cons ev later)
  obtain c ss where s: "s = (c, ss)" by (cases s)
  show ?case
  proof (cases ev)
    case (Arrives a t)
    have ev1: "count_list (events (fst (on_atom (a, t) s))) sock = 1"
      using Cons.prems(1) by (simp add: on_atom_events)
    have w: "snd (on_atom (a, t) s) sock = ss sock @ wire a"
      using Cons.prems(1) by (simp add: s on_atom_sockets emit_written)
    have "snd (run later (on_atom (a, t) s)) sock =
        snd (on_atom (a, t) s) sock @ concat (map wire (arriving later))"
      using ev1 Cons.prems(2) by (intro Cons.IH) (simp_all add: Arrives)
    with w show ?thesis by (simp add: Arrives s)
  next
    case (Connects k t r)
    from Cons.prems(2) have k: "k \<noteq> sock" and rest: "sock \<notin> set (connecting later)"
      by (auto simp: Connects)
    have ev1: "count_list (events (fst (getVideo k t r s))) sock = 1"
      using Cons.prems(1) k by (simp add: s getVideo_events)
    have w: "snd (getVideo k t r s) sock = ss sock"
      using k by (simp add: s getVideo_other)
    have "snd (run later (getVideo k t r s)) sock =
        snd (getVideo k t r s) sock @ concat (map wire (arriving later))"
      using ev1 rest by (rule Cons.IH)
    with w show ?thesis by (simp add: Connects s)
  qed
qed

lemma file_atom_ftyp: "ftyp c = Some f \<Longrightarrow> ftyp (file_atom a t c) = Some f"
  by (simp add: file_atom_def Let_def)

lemma file_atom_moov: "moov c = Some m \<Longrightarrow> moov (file_atom a t c) = Some m"
  by (simp add: file_atom_def Let_def)

lemma step_ftyp: "ftyp (fst s) = Some f \<Longrightarrow> ftyp (fst (step ev s)) = Some f"
  by (cases ev; cases s) (simp_all add: on_atom_def getVideo_def Let_def file_atom_ftyp)

lemma step_moov: "moov (fst s) = Some m \<Longrightarrow> moov (fst (step ev s)) = Some m"
  by (cases ev; cases s) (simp_all add: on_atom_def getVideo_def Let_def file_atom_moov)

lemma run_ftyp: "ftyp (fst s) = Some f \<Longrightarrow> ftyp (fst (run evs s)) = Some f"
  by (induction evs arbitrary: s) (simp_all add: step_ftyp)

lemma run_moov: "moov (fst s) = Some m \<Longrightarrow> moov (fst (run evs s)) = Some m"
  by (induction evs arbitrary: s) (simp_all add: step_moov)

lemma file_atom_init_ok: "init_ok c \<Longrightarrow> init_ok (file_atom a t c)"
  by (auto simp: init_ok_def file_atom_def Let_def)

lemma step_init_ok:
  assumes "init_ok (fst s)"
  shows "init_ok (fst (step ev s))"
proof (cases ev)
  case (Arrives a t)
  obtain c ss where s: "s = (c, ss)" by (cases s)
  have "init_ok (c\<lparr>cam_time := now t, cam_date := date1 t\<rparr>)"
    using assms by (simp add: init_ok_def s)
  then have "init_ok (file_atom a t (c\<lparr>cam_time := now t, cam_date := date1 t\<rparr>))"
    by (rule file_atom_init_ok)
  then show ?thesis
    by (auto simp: Arrives s on_atom_def Let_def init_ok_def)
next
  case (Connects k t r)
  with assms show ?thesis
    by (cases s) (simp add: getVideo_def Let_def init_ok_def)
qed

lemma run_init_ok: "init_ok (fst s) \<Longrightarrow> init_ok (fst (run evs s))"
  by (induction evs arbitrary: s) (simp_all add: step_init_ok)

lemma start_camera_init_ok: "init_ok (start_camera vp vd t0 d0 srv cp cfg)"
  by (simp add: init_ok_def start_camera_ring)

text \<open>
  Claim C4. Take any state \<open>c\<close> of a camera, with any viewers already subscribed, and let
  a viewer connect on a socket \<open>sock\<close> of its own, at clock reading \<open>t\<close> with the look-back
  \<open>r\<close>; afterwards the events \<open>later\<close> happen, atoms arriving and other viewers connecting
  on other sockets. What has then been written to the socket, after what it held before,
  is exactly: the header and payload bytes of \<^verbatim>\<open>ftyp\<close> if it is set, those of \<^verbatim>\<open>moov\<close> if
  it is set, those of every ring entry with \<open>time \<ge> t - r\<close> from the first \<^verbatim>\<open>moof\<close> among
  them on, and those of every atom that arrives in \<open>later\<close>. An initialisation atom that
  is set is never replaced. And in every state a started camera can reach, a ring that has
  an entry belongs to a camera with both initialisation atoms set, so these precede every
  ring atom.
\<close>

theorem getVideo_stream:
  assumes "sock \<notin> set (events c)" and "sock \<notin> set (connecting later)"
  shows "snd (run later (getVideo sock t r (c, ss))) sock =
           ss sock @ stream_spec c t r (arriving later)
       \<and> (ftyp c = None \<or> ftyp (fst (run later (getVideo sock t r (c, ss)))) = ftyp c)
       \<and> (moov c = None \<or> moov (fst (run later (getVideo sock t r (c, ss)))) = moov c)
       \<and> (prebufferFmp4 (fst (run evs (start_camera vp vd t0 d0 srv cp cfg, ss0))) = []
          \<or> (ftyp (fst (run evs (start_camera vp vd t0 d0 srv cp cfg, ss0))) \<noteq> None
             \<and> moov (fst (run evs (start_camera vp vd t0 d0 srv cp cfg, ss0))) \<noteq> None))"
proof -
  have ev: "count_list (events (fst (getVideo sock t r (c, ss)))) sock = 1"
    using assms(1) by (simp add: getVideo_events)
  have "snd (run later (getVideo sock t r (c, ss))) sock =
      snd (getVideo sock t r (c, ss)) sock @ concat (map wire (arriving later))"
    using ev assms(2) by (rule run_subscribed)
  then have 1: "snd (run later (getVideo sock t r (c, ss))) sock =
      ss sock @ stream_spec c t r (arriving later)"
    by (simp add: getVideo_written stream_spec_live[of c t r "arriving later"])
  have f: "ftyp (fst (getVideo sock t r (c, ss))) = ftyp c"
    and m: "moov (fst (getVideo sock t r (c, ss))) = moov c"
    by (simp_all add: getVideo_def Let_def)
  have 2: "ftyp c = None \<or> ftyp (fst (run later (getVideo sock t r (c, ss)))) = ftyp c"
    using f run_ftyp[of "getVideo sock t r (c, ss)" _ later] by (cases "ftyp c") auto
  have 3: "moov c = None \<or> moov (fst (run later (getVideo sock t r (c, ss)))) = moov c"
    using m run_moov[of "getVideo sock t r (c, ss)" _ later] by (cases "moov c") auto
  have "init_ok (fst (run evs (start_camera vp vd t0 d0 srv cp cfg, ss0)))"
    by (rule run_init_ok) (simp add: start_camera_init_ok)
  then have 4: "prebufferFmp4 (fst (run evs (start_camera vp vd t0 d0 srv cp cfg, ss0))) = []
      \<or> (ftyp (fst (run evs (start_camera vp vd t0 d0 srv cp cfg, ss0))) \<noteq> None
         \<and> moov (fst (run evs (start_camera vp vd t0 d0 srv cp cfg, ss0))) \<noteq> None)"
    by (simp add: init_ok_def)
  from 1 2 3 4 show ?thesis by blast
qed

text \<open>
  The claim at work, byte by byte. A first viewer is subscribed on socket 1. The ring
  holds \<^verbatim>\<open>mdat\<close>, \<^verbatim>\<open>moof\<close>, \<^verbatim>\<open>mdat\<close>, all inside the window of the second viewer, who
  connects on socket 3; the leading \<^verbatim>\<open>mdat\<close> is passed over. The \<^verbatim>\<open>moof\<close> and the \<^verbatim>\<open>mdat\<close>
  that arrive later follow the replay, and the third viewer, who connects between them on
  socket 5, leaves the stream of socket 3 alone.
\<close>

theorem getVideo_stream_witness:
  "events (fst (run before_viewer (fresh_camera, no_sockets))) = [1]
   \<and> connecting after_viewer = [5]
   \<and> snd (run after_viewer
        (getVideo 3 2000 1500 (run before_viewer (fresh_camera, no_sockets)))) 3 =
       [0, 9, 102, 1,  0, 9, 109, 2,  0, 9, 111, 3,  0, 9, 100, 4, 5,
        0, 9, 111, 3,  0, 9, 100, 4, 5]"
proof -
  obtain c ss where s: "run before_viewer (fresh_camera, no_sockets) = (c, ss)"
    by (cases "run before_viewer (fresh_camera, no_sockets)")
  have e: "events (fst (run before_viewer (fresh_camera, no_sockets))) = [1]"
    by code_simp
  have l: "connecting after_viewer = [5]"
    by code_simp
  have v: "snd (run before_viewer (fresh_camera, no_sockets)) 3 @
      stream_spec (fst (run before_viewer (fresh_camera, no_sockets))) 2000 1500
        (arriving after_viewer) =
       [0, 9, 102, 1,  0, 9, 109, 2,  0, 9, 111, 3,  0, 9, 100, 4, 5,
        0, 9, 111, 3,  0, 9, 100, 4, 5]"
    by code_simp
  have h1: "3 \<notin> set (events c)" using e by (simp add: s)
  have h2: "3 \<notin> set (connecting after_viewer)" using l by simp
  from getVideo_stream[OF h1 h2, of 2000 1500 ss] e l v
  show ?thesis by (simp add: s)
qed

subsection \<open>stop\<close>

text \<open>
  No code assigns the properties \<^verbatim>\<open>process\<close> and \<^verbatim>\<open>server\<close> of a per-camera object: after
  \<^verbatim>\<open>start\<close>, whatever the configuration, \<^verbatim>\<open>stop\<close> finds neither and issues no call.
\<close>

lemma stop_after_start: "stop cam (start vp vd cameras Map.empty) = []"
proof -
  have "\<forall>c. p cam = Some c \<longrightarrow> process c = None \<and> server c = None \<Longrightarrow>
      \<forall>c. start vp vd cameras p cam = Some c \<longrightarrow> process c = None \<and> server c = None" for p
  proof (induction cameras arbitrary: p)
    case Nil
    then show ?case by simp
  next
    case (Cons x cameras)
    obtain camera t d srv cp where x: "x = (camera, t, d, srv, cp)" by (cases x)
    show ?case
      unfolding x start.simps
      by (rule Cons.IH) (use Cons.prems in \<open>simp add: start_camera_def Let_def\<close>)
  qed
  from this[of Map.empty] show ?thesis
    by (auto simp: stop_def split: option.split)
qed

text \<open>
  Claim C9, at the input where the code departs from it. \<^verbatim>\<open>start\<close> has run for the camera
  ``Front Door''; \<^verbatim>\<open>startPreBufferSessions\<close> returned the listener 7 and the encoder process
  8, which \<^verbatim>\<open>start\<close> stored under \<^verbatim>\<open>prebufferSession\<close>. \<^verbatim>\<open>stop\<close> for that camera returns
  without an error, and it neither kills the process nor closes the listener: it looks for
  them in the properties \<^verbatim>\<open>process\<close> and \<^verbatim>\<open>server\<close> of the per-camera object, where they
  are not.
\<close>

theorem stop_misses_session_handles:
  "map_option prebufferSession (started ''Front Door'') =
     Some (Some \<lparr>session_server = 7, session_process = 8\<rparr>)
   \<and> stop ''Front Door'' started = []"
  by (simp add: started_def cam_cfg_def start_camera_def startPreBufferSessions_def stop_def Let_def)

section \<open>Properties of the motion handler\<close>

subsection \<open>The quota that is left\<close>

text \<open>
  Claim C5, as the code has it. The quota \<^verbatim>\<open>handle\<close> works with is \<^verbatim>\<open>contingent_total\<close>
  when \<^verbatim>\<open>last_rekognition\<close> is absent, and when it lies in another month than the
  current date. When it lies in the current month, the stored \<^verbatim>\<open>contingent_left\<close> is taken
  if it is at least 0, and \<^verbatim>\<open>contingent_total\<close> if the stored value is negative.
\<close>

theorem quota_available:
  "(last_rekognition (aws db) = None \<longrightarrow>
      contingent_left (awsSettings db current) = contingent_total (aws db))
   \<and> (last_rekognition (aws db) = Some l \<and> \<not> isSame_month l current \<longrightarrow>
      contingent_left (awsSettings db current) = contingent_total (aws db))
   \<and> (last_rekognition (aws db) = Some l \<and> isSame_month l current
        \<and> 0 \<le> contingent_left (aws db) \<longrightarrow>
      contingent_left (awsSettings db current) = contingent_left (aws db))
   \<and> (last_rekognition (aws db) = Some l \<and> isSame_month l current
        \<and> contingent_left (aws db) < 0 \<longrightarrow>
      contingent_left (awsSettings db current) = contingent_total (aws db))"
  by (simp add: awsSettings_def)

text \<open>
  The four cases on stored settings, the current date being in June 2021: no
  \<^verbatim>\<open>last_rekognition\<close>; a \<^verbatim>\<open>last_rekognition\<close> in May with nothing left (the rollover
  of the specification); one in June with 50 left; one in June with -1 stored.
\<close>

theorem quota_available_witness:
  "contingent_left (awsSettings (settings0\<lparr>aws := aws0\<lparr>last_rekognition := None\<rparr>\<rparr>) june) = 5000
   \<and> contingent_left (awsSettings rollover june) = 5000
   \<and> contingent_left (awsSettings settings0 june) = 50
   \<and> contingent_left (awsSettings (settings0\<lparr>aws := aws0\<lparr>contingent_left := - 1\<rparr>\<rparr>) june) = 5000"
  using quota_available[where db = "settings0\<lparr>aws := aws0\<lparr>last_rekognition := None\<rparr>\<rparr>"
      and current = june and l = june]
    quota_available[where db = rollover and current = june and l = may]
    quota_available[where db = settings0 and current = june and l = june]
    quota_available[where db = "settings0\<lparr>aws := aws0\<lparr>contingent_left := - 1\<rparr>\<rparr>"
      and current = june and l = june]
  by (simp add: settings0_def aws0_def rollover_def isSame_month_def june_def may_def)

text \<open>
  Claim C5 as it is worded fails where \<^verbatim>\<open>last_rekognition\<close> is in the current month and
  the stored \<^verbatim>\<open>contingent_left\<close> is -1: the stored value is not the one used.
\<close>

theorem quota_same_month_negative_counterexample:
  "last_rekognition (aws (settings0\<lparr>aws := aws0\<lparr>contingent_left := - 1\<rparr>\<rparr>)) = Some june
   \<and> isSame_month june june
   \<and> contingent_left (awsSettings (settings0\<lparr>aws := aws0\<lparr>contingent_left := - 1\<rparr>\<rparr>) june)
       \<noteq> contingent_left (aws (settings0\<lparr>aws := aws0\<lparr>contingent_left := - 1\<rparr>\<rparr>))"
  by (simp add: awsSettings_def settings0_def aws0_def isSame_month_def june_def)

subsection \<open>The detection gate\<close>

lemma detected_names:
  "(case map (\<lambda>l. case l of Some l1 \<Rightarrow> Name l1 | None \<Rightarrow> [])
           (filter (label_matches lower ts c) found) of
      [] \<Rightarrow> NotDetected | d # ds \<Rightarrow> Detected d) =
   (case filter (\<lambda>l. lower (Name l) \<in> set ts \<and> c \<le> Confidence l)
           (concat (map (\<lambda>l. case l of None \<Rightarrow> [] | Some l1 \<Rightarrow> [l1]) found)) of
      [] \<Rightarrow> NotDetected | l # ls \<Rightarrow> Detected (Name l))"
proof (induction found)
  case Nil
  then show ?case by simp
next
  case (Cons x found)
  then show ?case by (cases x) (simp_all add: label_matches_def)
qed

lemma handleImageDetection_no_credentials:
  assumes "accessKeyId a = [] \<or> secretAccessKey a = [] \<or> region a = []"
  shows "handleImageDetection e a labels confidence img w = (NotDetected, w)"
  using assms
  by (cases "labels_toString labels")
     (auto simp: handleImageDetection_def handleImageDetection_try_def)

text \<open>
  With \<^verbatim>\<open>undefined\<close> (or \<^verbatim>\<open>null\<close>) for the labels, the call of \<^verbatim>\<open>labels.toString()\<close> in the
  first log line throws before anything else happens: the answer is \<^verbatim>\<open>false\<close>, and the
  detection service is not called.
\<close>

lemma labels_undefined_never_detect:
  assumes "labels = Undefined \<or> labels = Null"
  shows "handleImageDetection e a labels confidence img w = (NotDetected, w)"
  using assms by (auto simp: handleImageDetection_def handleImageDetection_try_def)

text \<open>
  Claim C6, as the code has it. The configured labels are an array, or the empty string,
  for which \<open>human\<close>, \<open>face\<close>, \<open>person\<close> stand in; the quota patch that follows a detection
  call does not throw. Then \<^verbatim>\<open>handleImageDetection\<close> answers as the gate of the
  specification does on the labels the service returned: targets lower-cased, threshold
  80 when it is unset or 0, a label kept when its lower-cased name is a target and its
  confidence reaches the threshold, and the answer the name of the first label kept, in
  the spelling of the service, or \<^verbatim>\<open>false\<close> when none is kept.
\<close>

theorem detection_gate:
  assumes "labels = Array ls \<or> labels = EmptyString"
    and "patchByTarget e = None"
  shows "fst (handleImageDetection e a labels confidence img w) =
           gate_spec (toLowerCase e) labels confidence (returned_labels e a img)"
proof -
  from assms(1) obtain logged where l: "labels_toString labels = Inr logged" by auto
  from assms(1) have d: "labels_or_default labels =
      (case labels of Array xs \<Rightarrow> xs | Undefined \<Rightarrow> [''human'', ''face'', ''person'']
       | Null \<Rightarrow> [''human'', ''face'', ''person'']
       | EmptyString \<Rightarrow> [''human'', ''face'', ''person''])"
    by auto
  have t: "confidence_or_default confidence =
      (case confidence of None \<Rightarrow> 80 | Some v \<Rightarrow> if v = 0 then 80 else v)"
    by (simp add: confidence_or_default_def)
  show ?thesis
  proof (cases "accessKeyId a \<noteq> [] \<and> secretAccessKey a \<noteq> [] \<and> region a \<noteq> []")
    case False
    have r: "returned_labels e a img = []"
      unfolding returned_labels_def by (rule if_not_P) (rule False)
    from False have "accessKeyId a = [] \<or> secretAccessKey a = [] \<or> region a = []"
      by simp
    then have "handleImageDetection e a labels confidence img w = (NotDetected, w)"
      by (rule handleImageDetection_no_credentials)
    then show ?thesis
      by (simp add: r gate_spec_def)
  next
    case True
    show ?thesis
    proof (cases "detectLabels e img")
      case (Inl x)
      with True l show ?thesis
        by (simp add: handleImageDetection_def handleImageDetection_try_def gate_spec_def
            returned_labels_def Let_def)
    next
      case (Inr imageLabels)
      with True l assms(2) show ?thesis
        unfolding gate_spec_def returned_labels_def d[symmetric] t[symmetric]
        by (simp add: handleImageDetection_def handleImageDetection_try_def handleAWS_def
            Let_def detected_names)
    qed
  qed
qed

text \<open>
  Two calls. The example of the specification: labels \<^verbatim>\<open>["person"]\<close>, threshold 80, and
  the service returns ``Person'' with 92 and ``Car'' with 99; the answer is ``Person''.
  And a call with nothing configured but the empty string and no threshold, where the
  service returns ``Human'' with 79, a \<^verbatim>\<open>null\<close> and ``Face'' with 80: the default labels
  and the default threshold of 80 make ``Face'' the answer.
\<close>

theorem detection_gate_witness:
  "fst (handleImageDetection env0 aws0 (Array [''person'']) (Some 80) [255, 216] world0)
     = Detected ''Person''
   \<and> fst (handleImageDetection env_faces aws0 EmptyString None [255, 216] world0)
     = Detected ''Face''"
proof -
  have 1: "Array [''person''] = Array [''person''] \<or> Array [''person''] = EmptyString" by simp
  have 2: "EmptyString = Array [] \<or> EmptyString = EmptyString" by simp
  have 3: "patchByTarget env0 = None" by (simp add: env0_def)
  have 4: "patchByTarget env_faces = None" by (simp add: env_faces_def env0_def)
  have 5: "gate_spec (toLowerCase env0) (Array [''person'']) (Some 80)
      (returned_labels env0 aws0 [255, 216]) = Detected ''Person''"
    by code_simp
  have 6: "gate_spec (toLowerCase env_faces) EmptyString None
      (returned_labels env_faces aws0 [255, 216]) = Detected ''Face''"
    by code_simp
  from detection_gate[OF 1 3, of aws0 "Some 80" "[255, 216]" world0]
    detection_gate[OF 2 4, of aws0 None "[255, 216]" world0] 5 6
  show ?thesis by simp
qed

text \<open>
  Claim C6 as it is worded fails in three places. On its own example the answer is
  ``Person'', as the service returned it, and not the lower-cased ``person''. When the
  quota patch that follows the detection call throws, the answer is \<^verbatim>\<open>false\<close> although
  ``Person'' with 92 matches. And with the threshold configured as 0 the threshold used
  is 80: ``Person'' with 50 is not kept.
\<close>

theorem detection_gate_counterexample:
  "fst (handleImageDetection env0 aws0 (Array [''person'']) (Some 80) [255, 216] world0)
     = Detected ''Person''
   \<and> fst (handleImageDetection env0 aws0 (Array [''person'']) (Some 80) [255, 216] world0)
     \<noteq> Detected ''person''
   \<and> detectLabels env_patch_fails [255, 216] = Inr person_and_car
   \<and> fst (handleImageDetection env_patch_fails aws0 (Array [''person'']) (Some 80)
        [255, 216] world0) = NotDetected
   \<and> detectLabels env_half_sure [255, 216] = Inr [Some \<lparr>Name = ''Person'', Confidence = 50\<rparr>]
   \<and> fst (handleImageDetection env_half_sure aws0 (Array [''person'']) (Some 0)
        [255, 216] world0) = NotDetected"
  by code_simp

subsection \<open>The quota patch\<close>

text \<open>
  Claim C7. The detection service is called when the credentials are present (and the
  configured labels are a value that has \<^verbatim>\<open>toString\<close>). If the call returns, whatever it
  matched, \<^verbatim>\<open>handleAWS\<close> is called next with \<^verbatim>\<open>contingent_left - 1\<close> and the current time,
  and when that patch goes through, the stored section holds these two values. If the call
  throws, \<^verbatim>\<open>handleImageDetection\<close> returns \<^verbatim>\<open>false\<close>, no patch is issued and the stored
  settings are what they were.
\<close>

theorem quota_patched_on_success_only:
  assumes "accessKeyId a \<noteq> [] \<and> secretAccessKey a \<noteq> [] \<and> region a \<noteq> []"
    and "labels = Array ls \<or> labels = EmptyString"
  shows "(detectLabels e img = Inr found \<longrightarrow>
            trace (snd (handleImageDetection e a labels confidence img w)) =
              trace w @ [DetectLabels, PatchAWS (contingent_left a - 1) (moment_now e)]
          \<and> (patchByTarget e = None \<longrightarrow>
               aws (settingsDB (snd (handleImageDetection e a labels confidence img w))) =
                 (aws (settingsDB w))\<lparr>contingent_left := contingent_left a - 1,
                                      last_rekognition := Some (moment_now e)\<rparr>))
       \<and> (detectLabels e img = Inl x \<longrightarrow>
            fst (handleImageDetection e a labels confidence img w) = NotDetected
          \<and> settingsDB (snd (handleImageDetection e a labels confidence img w)) = settingsDB w
          \<and> trace (snd (handleImageDetection e a labels confidence img w)) =
              trace w @ [DetectLabels])"
proof -
  from assms(2) obtain logged where l: "labels_toString labels = Inr logged" by auto
  show ?thesis
    using assms(1) l
    by (auto simp: handleImageDetection_def handleImageDetection_try_def handleAWS_def Let_def
        patch_aws_def split: option.split)
qed

text \<open>
  Two calls with 50 left: one where the service returns only ``Car'' (no match, and the
  quota goes to 49), one where the service throws (no patch).
\<close>

theorem quota_patched_on_success_only_witness:
  "fst (handleImageDetection env_only_car aws0 (Array [''person'']) (Some 80) [255, 216] world0)
     = NotDetected
   \<and> trace (snd (handleImageDetection env_only_car aws0 (Array [''person'']) (Some 80)
        [255, 216] world0)) = [DetectLabels, PatchAWS 49 june]
   \<and> contingent_left (aws (settingsDB (snd (handleImageDetection env_only_car aws0
        (Array [''person'']) (Some 80) [255, 216] world0)))) = 49
   \<and> last_rekognition (aws (settingsDB (snd (handleImageDetection env_only_car aws0
        (Array [''person'']) (Some 80) [255, 216] world0)))) = Some june
   \<and> fst (handleImageDetection env_detect_fails aws0 (Array [''person'']) (Some 80)
        [255, 216] world0) = NotDetected
   \<and> settingsDB (snd (handleImageDetection env_detect_fails aws0 (Array [''person''])
        (Some 80) [255, 216] world0)) = settings0
   \<and> trace (snd (handleImageDetection env_detect_fails aws0 (Array [''person''])
        (Some 80) [255, 216] world0)) = [DetectLabels]"
proof -
  have 1: "accessKeyId aws0 \<noteq> [] \<and> secretAccessKey aws0 \<noteq> [] \<and> region aws0 \<noteq> []"
    by (simp add: aws0_def)
  have 2: "Array [''person''] = Array [''person''] \<or> Array [''person''] = EmptyString" by simp
  have 3: "detectLabels env_only_car [255, 216] = Inr [Some \<lparr>Name = ''Car'', Confidence = 99\<rparr>]"
    by (simp add: env_only_car_def)
  have 4: "detectLabels env_detect_fails [255, 216] = Inl (Exn ''ServiceUnavailable'')"
    by (simp add: env_detect_fails_def)
  have 5: "patchByTarget env_only_car = None" "moment_now env_only_car = june"
    by (simp_all add: env_only_car_def env0_def)
  have 6: "trace world0 = []" "settingsDB world0 = settings0" "contingent_left aws0 = 50"
    "aws settings0 = aws0"
    by (simp_all add: world0_def aws0_def settings0_def)
  have 7: "fst (handleImageDetection env_only_car aws0 (Array [''person'']) (Some 80)
      [255, 216] world0) = NotDetected"
    by code_simp
  from quota_patched_on_success_only[OF 1 2, where e = env_only_car and img = "[255, 216]"
      and found = "[Some \<lparr>Name = ''Car'', Confidence = 99\<rparr>]" and confidence = "Some 80"
      and w = world0 and x = "Exn ''x''"]
    quota_patched_on_success_only[OF 1 2, where e = env_detect_fails and img = "[255, 216]"
      and found = "[]" and confidence = "Some 80"
      and w = world0 and x = "Exn ''ServiceUnavailable''"]
  show ?thesis
    using 3 4 5 6 7 by simp
qed

subsection \<open>The events of one handling\<close>

lemma trace_calls: "trace (calls es w) = trace w @ es"
  by (simp add: calls_def)

lemma trace_requestSession: "trace (snd (requestSession cam w)) = trace w @ [RequestSession cam]"
  by (simp add: requestSession_def Let_def)

lemma trace_handleAWS: "trace (snd (handleAWS e left ts w)) = trace w @ [PatchAWS left ts]"
  by (simp add: handleAWS_def Let_def split: option.split)

lemma trace_handleImageDetection_try:
  "\<exists>pre. trace (snd (handleImageDetection_try e a labels confidence img w)) = trace w @ pre"
proof (cases "labels_toString labels")
  case (Inl x)
  then show ?thesis by (simp add: handleImageDetection_try_def)
next
  case (Inr logged)
  show ?thesis
  proof (cases "accessKeyId a \<noteq> [] \<and> secretAccessKey a \<noteq> [] \<and> region a \<noteq> []")
    case False
    with Inr show ?thesis by (auto simp: handleImageDetection_try_def)
  next
    case True
    show ?thesis
    proof (cases "detectLabels e img")
      case (Inl x)
      with Inr True show ?thesis by (simp add: handleImageDetection_try_def Let_def)
    next
      case answer: (Inr imageLabels)
      obtain r w2 where h: "handleAWS e (contingent_left a - 1) (moment_now e)
          (w\<lparr>trace := trace w @ [DetectLabels]\<rparr>) = (r, w2)"
        by (cases "handleAWS e (contingent_left a - 1) (moment_now e)
          (w\<lparr>trace := trace w @ [DetectLabels]\<rparr>)")
      from trace_handleAWS[of e "contingent_left a - 1" "moment_now e"
          "w\<lparr>trace := trace w @ [DetectLabels]\<rparr>"] h
      have "trace w2 = trace w @ [DetectLabels, PatchAWS (contingent_left a - 1) (moment_now e)]"
        by simp
      with Inr True answer h show ?thesis
        by (cases r) (simp_all add: handleImageDetection_try_def Let_def)
    qed
  qed
qed

lemma trace_handleImageDetection:
  "\<exists>pre. trace (snd (handleImageDetection e a labels confidence img w)) = trace w @ pre"
proof -
  obtain r w1 where h: "handleImageDetection_try e a labels confidence img w = (r, w1)"
    by (cases "handleImageDetection_try e a labels confidence img w")
  from trace_handleImageDetection_try[of e a labels confidence img w] h
  obtain pre where "trace w1 = trace w @ pre" by auto
  with h show ?thesis by (cases r) (simp_all add: handleImageDetection_def)
qed

lemma trace_notify_and_record:
  "\<exists>pre. trace (snd (notify_and_record e cam ty w)) = trace w @ pre"
  by (simp add: notify_and_record_def Let_def trace_calls split: option.split)

lemma trace_notify_only: "\<exists>pre. trace (snd (notify_only e cam w)) = trace w @ pre"
  by (simp add: notify_only_def Let_def trace_calls split: option.split)

lemma trace_handle_try: "\<exists>pre. trace (snd (handle_try e trigger cam w)) = trace w @ pre"
proof -
  let ?w1 = "w\<lparr>movementHandler := (movementHandler w)(cam \<mapsto> True)\<rparr>"
  obtain allow w2 where rs: "requestSession cam ?w1 = (allow, w2)"
    by (cases "requestSession cam ?w1")
  have t2: "trace w2 = trace w @ [RequestSession cam]"
    using trace_requestSession[of cam ?w1] rs by simp
  let ?w3 = "calls [RequestSnapshot cam] w2"
  have t3: "trace ?w3 = trace w @ [RequestSession cam, RequestSnapshot cam]"
    by (simp add: trace_calls t2)
  have det: "\<exists>pre. trace w4 = trace w @ pre"
    if "handleImageDetection e a labels confidence img ?w3 = (l, w4)"
    for a labels confidence img l w4
    using trace_handleImageDetection[of e a labels confidence img ?w3] that by (auto simp: t3)
  have nr: "\<exists>pre. trace w4 = trace w @ pre \<Longrightarrow>
      \<exists>pre. trace (snd (notify_and_record e cam ty w4)) = trace w @ pre" for w4 ty
    using trace_notify_and_record[of e cam ty w4] by auto
  have no: "\<exists>pre. trace (snd (notify_only e cam ?w1)) = trace w @ pre"
    using trace_notify_only[of e cam ?w1] by simp
  show ?thesis
    unfolding handle_try_def Let_def
    using rs t2 t3 no
    by (auto split: sum.split option.split prod.split intro!: nr dest: det)
qed

subsection \<open>The cleanup at the end of handle\<close>

text \<open>
  Claim C2. Whatever the collaborators answer and whatever the world is, so on every
  path through \<^verbatim>\<open>handle\<close> (the exception caught at the top among them), the world that
  \<^verbatim>\<open>handle\<close> returns with has the busy flag of the camera at \<^verbatim>\<open>false\<close>, the last call of
  the handling is \<^verbatim>\<open>sessions.closeSession\<close> for the camera, after the calls of the path
  taken, and the session count of the camera is one below what the path left (or 0).
\<close>

theorem handle_always_cleans_up:
  "movementHandler (snd (handle e trigger cam active w)) cam = Some False
   \<and> (\<exists>pre. trace (snd (handle e trigger cam active w)) = trace w @ pre @ [CloseSession cam])
   \<and> activeSessions (snd (handle e trigger cam active w)) cam =
       activeSessions (snd (handle_try e trigger cam w)) cam - 1"
proof -
  obtain r w1 where h: "handle_try e trigger cam w = (r, w1)"
    by (cases "handle_try e trigger cam w")
  from trace_handle_try[of e trigger cam w] h obtain pre where "trace w1 = trace w @ pre"
    by auto
  with h show ?thesis
    by (simp add: handle_def Let_def closeSession_def)
qed

text \<open>
  Two handlings of a camera that records: one that succeeds, and one where the
  recording throws and the exception is caught at the top. Both end with the flag at
  \<^verbatim>\<open>false\<close> and with \<^verbatim>\<open>closeSession\<close>.
\<close>

theorem handle_always_cleans_up_witness:
  "movementHandler (snd (handle env0 ''motion'' ''Front Door'' True world0)) ''Front Door''
     = Some False
   \<and> last (trace (snd (handle env0 ''motion'' ''Front Door'' True world0)))
     = CloseSession ''Front Door''
   \<and> fst (handle env_recording_fails ''motion'' ''Front Door'' True world0)
     = \<lparr>error = True, message = ''ENOSPC''\<rparr>
   \<and> movementHandler (snd (handle env_recording_fails ''motion'' ''Front Door'' True world0))
       ''Front Door'' = Some False
   \<and> last (trace (snd (handle env_recording_fails ''motion'' ''Front Door'' True world0)))
     = CloseSession ''Front Door''"
proof -
  have r: "fst (handle env_recording_fails ''motion'' ''Front Door'' True world0)
     = \<lparr>error = True, message = ''ENOSPC''\<rparr>"
    by code_simp
  from handle_always_cleans_up[of env0 "''motion''" "''Front Door''" True world0]
    handle_always_cleans_up[of env_recording_fails "''motion''" "''Front Door''" True world0]
  show ?thesis using r by auto
qed

subsection \<open>A camera that is not found\<close>

text \<open>
  What the path of a camera that cannot be resolved does (the lookup throws or answers
  nothing): \<^verbatim>\<open>handle\<close> returns the error outcome with the message
  \<^verbatim>\<open>Camera "<name>" not found.\<close>, makes no call but the \<^verbatim>\<open>closeSession\<close> of its last
  statement, and writes the flag of the name to \<^verbatim>\<open>false\<close>.
\<close>

lemma not_found_path:
  assumes "findByName e = Inl x \<or> findByName e = Inr None"
  shows "fst (handle e trigger cam active w) =
           \<lparr>error = True, message = ''Camera '' @ [dquote] @ cam @ [dquote] @ '' not found.''\<rparr>
       \<and> movementHandler (snd (handle e trigger cam active w)) =
           (movementHandler w)(cam \<mapsto> False)
       \<and> trace (snd (handle e trigger cam active w)) = trace w @ [CloseSession cam]
       \<and> activeSessions (snd (handle e trigger cam active w)) =
           (activeSessions w)(cam := activeSessions w cam - 1)
       \<and> maxSessions (snd (handle e trigger cam active w)) = maxSessions w
       \<and> settingsDB (snd (handle e trigger cam active w)) = settingsDB w"
  using assms by (auto simp: handle_def handle_try_def closeSession_def Let_def)

text \<open>
  Claim C8, at the input where the code departs from it. A first handling for
  ``Front Door'' is in flight: the flag is set and its session is held. A second trigger
  for the same camera arrives, and this time the lookup of the camera throws; the inner
  \<^verbatim>\<open>catch\<close> leaves the camera unresolved. The call returns the not-found outcome and
  sends nothing, as the claim says; but its last two statements write the flag to
  \<^verbatim>\<open>false\<close> and call \<^verbatim>\<open>closeSession\<close>: the lock and the session of the first handling
  are released, and the next trigger is accepted while the first handling is in flight.
\<close>

theorem not_found_releases_lock_in_flight:
  "findByName env_lookup_fails = Inl (Exn ''database is locked'')
   \<and> movementHandler busy_world ''Front Door'' = Some True
   \<and> activeSessions busy_world ''Front Door'' = 1
   \<and> trace busy_world = [RequestSession ''Front Door'']
   \<and> fst (handle env_lookup_fails ''motion'' ''Front Door'' True busy_world) =
       \<lparr>error = True,
        message = ''Camera '' @ [dquote] @ ''Front Door'' @ [dquote] @ '' not found.''\<rparr>
   \<and> trace (snd (handle env_lookup_fails ''motion'' ''Front Door'' True busy_world)) =
       [RequestSession ''Front Door'', CloseSession ''Front Door'']
   \<and> movementHandler (snd (handle env_lookup_fails ''motion'' ''Front Door'' True busy_world))
       ''Front Door'' = Some False
   \<and> activeSessions (snd (handle env_lookup_fails ''motion'' ''Front Door'' True busy_world))
       ''Front Door'' = 0
   \<and> fst (handle env0 ''motion'' ''Front Door'' True
            (snd (handle env_lookup_fails ''motion'' ''Front Door'' True busy_world))) =
       \<lparr>error = False, message = ''Notification send and snapshot stored.''\<rparr>"
  by code_simp

subsection \<open>Recognition without credentials\<close>

lemma awsSettings_fields:
  "aws_active (awsSettings db d) = aws_active (aws db)"
  "accessKeyId (awsSettings db d) = accessKeyId (aws db)"
  "secretAccessKey (awsSettings db d) = secretAccessKey (aws db)"
  "region (awsSettings db d) = region (aws db)"
  "contingent_total (awsSettings db d) = contingent_total (aws db)"
  by (simp_all add: awsSettings_def)

text \<open>
  Claim C10. The camera is found, the trigger is not skipped for at-home, no handling is
  in progress, recording is on, a session is granted and the snapshot is taken;
  recognition is active for the camera and in the settings, and quota is left; one of
  the three credentials is missing. Then \<^verbatim>\<open>handleImageDetection\<close> returns \<^verbatim>\<open>false\<close> (in any
  world), \<^verbatim>\<open>handle\<close> returns the error outcome that the configured label was not detected,
  the stored settings are unchanged, and the calls of the handling are the session
  request, the snapshot and the closing of the session: no detection call, no patch, no
  notification.
\<close>

theorem missing_credentials_skip:
  assumes found: "findByName e = Inr (Some Camera)"
    and shown: "settings_show e = None"
    and away: "\<not> atHome (settingsDB w) \<or> cam \<in> set (exclude (settingsDB w))"
    and idle: "movementHandler w cam \<noteq> Some True"
    and ident: "nanoid e = Inr i"
    and recording: "rec_active (recordings (settingsDB w))"
    and slot: "activeSessions w cam < maxSessions w cam"
    and snapshot: "requestSnapshot e = Inr img"
    and recognition: "aws_active (aws (settingsDB w))" "rek_active (rekognition Camera)"
    and quota: "0 < contingent_total (aws (settingsDB w))"
      "0 < contingent_left (awsSettings (settingsDB w) (today e))"
    and missing: "accessKeyId (aws (settingsDB w)) = [] \<or> secretAccessKey (aws (settingsDB w)) = []
      \<or> region (aws (settingsDB w)) = []"
  shows "fst (handleImageDetection e (awsSettings (settingsDB w) (today e))
            (rek_labels (rekognition Camera)) (rek_confidence (rekognition Camera)) img w0)
           = NotDetected
       \<and> fst (handle e trigger cam active w) =
           \<lparr>error = True,
            message = ''Skip handling movement. Configured label ('' @
                      labels_string (rek_labels (rekognition Camera)) @ '') not detected.''\<rparr>
       \<and> settingsDB (snd (handle e trigger cam active w)) = settingsDB w
       \<and> trace (snd (handle e trigger cam active w)) =
           trace w @ [RequestSession cam, RequestSnapshot cam, CloseSession cam]"
proof -
  let ?a = "awsSettings (settingsDB w) (today e)"
  have m: "accessKeyId ?a = [] \<or> secretAccessKey ?a = [] \<or> region ?a = []"
    using missing by (simp add: awsSettings_fields)
  have det: "handleImageDetection e ?a labels confidence img' w' = (NotDetected, w')"
    for labels confidence img' w'
    using m by (rule handleImageDetection_no_credentials)
  have gate: "aws_active ?a \<and> 0 < contingent_total ?a \<and> 0 < contingent_left ?a
      \<and> rek_active (rekognition Camera)"
    using recognition quota by (simp add: awsSettings_fields)
  have rs: "requestSession cam (w\<lparr>movementHandler := (movementHandler w)(cam \<mapsto> True)\<rparr>) =
      (True, w\<lparr>movementHandler := (movementHandler w)(cam \<mapsto> True),
               trace := trace w @ [RequestSession cam],
               activeSessions := (activeSessions w)(cam := Suc (activeSessions w cam))\<rparr>)"
    using slot by (simp add: requestSession_def Let_def)
  have body: "handle_try e trigger cam w =
      (Inr \<lparr>error = True,
            message = ''Skip handling movement. Configured label ('' @
                      labels_string (rek_labels (rekognition Camera)) @ '') not detected.''\<rparr>,
       calls [RequestSnapshot cam]
         (w\<lparr>movementHandler := (movementHandler w)(cam \<mapsto> True),
            trace := trace w @ [RequestSession cam],
            activeSessions := (activeSessions w)(cam := Suc (activeSessions w cam))\<rparr>))"
    unfolding handle_try_def Let_def
    using found shown away idle ident recording snapshot gate
    by (simp add: rs det)
  show ?thesis
    by (simp add: det handle_def body Let_def closeSession_def calls_def)
qed

text \<open>The settings of the example without a region.\<close>

theorem missing_credentials_skip_witness:
  "fst (handleImageDetection env0 (awsSettings (settingsDB no_region) (today env0))
          (rek_labels (rekognition front_door)) (rek_confidence (rekognition front_door))
          [255, 216] no_region) = NotDetected
   \<and> fst (handle env0 ''motion'' ''Front Door'' True no_region) =
       \<lparr>error = True,
        message = ''Skip handling movement. Configured label (person) not detected.''\<rparr>
   \<and> settingsDB (snd (handle env0 ''motion'' ''Front Door'' True no_region)) = settingsDB no_region
   \<and> trace (snd (handle env0 ''motion'' ''Front Door'' True no_region)) =
       [RequestSession ''Front Door'', RequestSnapshot ''Front Door'', CloseSession ''Front Door'']"
proof -
  have 1: "findByName env0 = Inr (Some front_door)" "settings_show env0 = None"
    "nanoid env0 = Inr ''0123456789''" "requestSnapshot env0 = Inr [255, 216]"
    by (simp_all add: env0_def)
  have 2: "\<not> atHome (settingsDB no_region) \<or> ''Front Door'' \<in> set (exclude (settingsDB no_region))"
    "movementHandler no_region ''Front Door'' \<noteq> Some True"
    "rec_active (recordings (settingsDB no_region))"
    "activeSessions no_region ''Front Door'' < maxSessions no_region ''Front Door''"
    "aws_active (aws (settingsDB no_region))"
    "0 < contingent_total (aws (settingsDB no_region))"
    by (simp_all add: no_region_def world0_def settings0_def aws0_def)
  have 3: "rek_active (rekognition front_door)"
    "labels_string (rek_labels (rekognition front_door)) = ''person''"
    by (simp_all add: front_door_def)
  have 4: "0 < contingent_left (awsSettings (settingsDB no_region) (today env0))"
    by (simp add: awsSettings_def no_region_def world0_def settings0_def aws0_def env0_def
        isSame_month_def)
  have 5: "accessKeyId (aws (settingsDB no_region)) = []
      \<or> secretAccessKey (aws (settingsDB no_region)) = []
      \<or> region (aws (settingsDB no_region)) = []"
    by (simp add: no_region_def world0_def settings0_def aws0_def)
  have 6: "trace no_region = []" by (simp add: no_region_def world0_def)
  from missing_credentials_skip[OF 1(1) 1(2) 2(1) 2(2) 1(3) 2(3) 2(4) 1(4) 2(5) 3(1) 2(6) 4 5,
      of no_region "''motion''" True]
  show ?thesis using 3(2) 6 by simp
qed

subsection \<open>A trigger while the camera is busy\<close>

text \<open>
  Whenever the flag of a camera is set, a trigger for that camera that gets as far as the
  test of the flag is turned down, and the same call leaves the flag at \<^verbatim>\<open>false\<close> and
  has called \<^verbatim>\<open>closeSession\<close>.
\<close>

lemma busy_trigger_resets_flag:
  assumes "findByName e = Inr (Some Camera)" and "settings_show e = None"
    and "\<not> atHome (settingsDB w) \<or> cam \<in> set (exclude (settingsDB w))"
    and "movementHandler w cam = Some True"
  shows "fst (handle e trigger cam active w) =
           \<lparr>error = True,
            message = ''Can not handle movement, another movement currently in progress for this camera.''\<rparr>
       \<and> movementHandler (snd (handle e trigger cam active w)) cam = Some False
       \<and> activeSessions (snd (handle e trigger cam active w)) cam = activeSessions w cam - 1
       \<and> trace (snd (handle e trigger cam active w)) = trace w @ [CloseSession cam]"
  using assms by (auto simp: handle_def handle_try_def closeSession_def Let_def)

text \<open>
  Claim C1, at the input where the code departs from it. A first handling for
  ``Front Door'' is in flight: the flag is set and its session is held. A second trigger
  for the same camera is answered with the outcome that another movement is in progress,
  as the claim says; but on its way out this second call writes the flag to \<^verbatim>\<open>false\<close> and
  calls \<^verbatim>\<open>closeSession\<close>, which gives the session of the first handling back. A third
  trigger, with the first handling still in flight, is then accepted and handled.
\<close>

theorem rejected_trigger_releases_lock:
  "movementHandler busy_world ''Front Door'' = Some True
   \<and> activeSessions busy_world ''Front Door'' = 1
   \<and> fst (handle env0 ''motion'' ''Front Door'' True busy_world) =
       \<lparr>error = True,
        message = ''Can not handle movement, another movement currently in progress for this camera.''\<rparr>
   \<and> movementHandler (snd (handle env0 ''motion'' ''Front Door'' True busy_world)) ''Front Door''
       = Some False
   \<and> activeSessions (snd (handle env0 ''motion'' ''Front Door'' True busy_world)) ''Front Door'' = 0
   \<and> fst (handle env0 ''motion'' ''Front Door'' True
            (snd (handle env0 ''motion'' ''Front Door'' True busy_world))) =
       \<lparr>error = False, message = ''Notification send and snapshot stored.''\<rparr>"
  by code_simp

end
